theory Spec2Isabelle
  imports Complex_Main "HOL-Library.Sublist"
begin

section \<open>Python strings and dictionaries\<close>

text \<open>
  Strings are lists of characters, a character being a code point below 256 (the
  game data, file names, port names and entity class names, is ASCII text).
  \<open>str.lower\<close> folds the letters of that range: \<open>A\<close> to \<open>Z\<close> and the accented capitals
  \<open>0xC0\<close> to \<open>0xDE\<close> (\<open>0xD7\<close>, the multiplication sign, is no letter). \<open>str.upper\<close> is
  modelled on \<open>a\<close> to \<open>z\<close> and leaves every other character alone.
\<close>

definition lower_char :: "char \<Rightarrow> char" where
  "lower_char c =
     (case map_of
        (zip ''ABCDEFGHIJKLMNOPQRSTUVWXYZ'' ''abcdefghijklmnopqrstuvwxyz'' @
         [(CHR 0xC0, CHR 0xE0), (CHR 0xC1, CHR 0xE1), (CHR 0xC2, CHR 0xE2), (CHR
          0xC3, CHR 0xE3), (CHR 0xC4, CHR 0xE4), (CHR 0xC5, CHR 0xE5), (CHR 0xC6,
          CHR 0xE6), (CHR 0xC7, CHR 0xE7), (CHR 0xC8, CHR 0xE8), (CHR 0xC9, CHR
          0xE9), (CHR 0xCA, CHR 0xEA), (CHR 0xCB, CHR 0xEB), (CHR 0xCC, CHR 0xEC),
          (CHR 0xCD, CHR 0xED), (CHR 0xCE, CHR 0xEE), (CHR 0xCF, CHR 0xEF), (CHR
          0xD0, CHR 0xF0), (CHR 0xD1, CHR 0xF1), (CHR 0xD2, CHR 0xF2), (CHR 0xD3,
          CHR 0xF3), (CHR 0xD4, CHR 0xF4), (CHR 0xD5, CHR 0xF5), (CHR 0xD6, CHR
          0xF6), (CHR 0xD8, CHR 0xF8), (CHR 0xD9, CHR 0xF9), (CHR 0xDA, CHR 0xFA),
          (CHR 0xDB, CHR 0xFB), (CHR 0xDC, CHR 0xFC), (CHR 0xDD, CHR 0xFD), (CHR
          0xDE, CHR 0xFE)]) c of
        Some d \<Rightarrow> d
      | None \<Rightarrow> c)"

definition upper_char :: "char \<Rightarrow> char" where
  "upper_char c =
     (case map_of (zip ''abcdefghijklmnopqrstuvwxyz'' ''ABCDEFGHIJKLMNOPQRSTUVWXYZ'') c of
        Some d \<Rightarrow> d
      | None \<Rightarrow> c)"

definition lower :: "string \<Rightarrow> string" where
  "lower s = map lower_char s"

definition upper :: "string \<Rightarrow> string" where
  "upper s = map upper_char s"

text \<open>\<open>sub in s\<close>: \<open>sub\<close> occurs in \<open>s\<close> as a contiguous block.\<close>

fun contains :: "string \<Rightarrow> string \<Rightarrow> bool" where
  "contains sub [] = (sub = [])"
| "contains sub (c # cs) = (prefix sub (c # cs) \<or> contains sub cs)"

text \<open>\<open>s.startswith(p)\<close>.\<close>

definition startswith :: "string \<Rightarrow> string \<Rightarrow> bool" where
  "startswith s p = prefix p s"

text \<open>
  \<open>s.replace(old, '')\<close> for a non-empty \<open>old\<close>: every non-overlapping occurrence, found
  from the left, is deleted.
\<close>

fun remove_all :: "string \<Rightarrow> string \<Rightarrow> string" where
  "remove_all old [] = []"
| "remove_all old (c # cs) =
     (if old \<noteq> [] \<and> prefix old (c # cs)
      then remove_all old (drop (length old) (c # cs))
      else c # remove_all old cs)"

text \<open>
  A Python dictionary keeps its keys in insertion order: an association list whose
  keys are distinct. \<open>d[k] = v\<close> overwrites the value of a key that is present, in
  place, and appends a new key at the end; \<open>d.get(k)\<close> reads it.
\<close>

type_synonym ('k, 'v) dict = "('k \<times> 'v) list"

fun dict_get :: "('k, 'v) dict \<Rightarrow> 'k \<Rightarrow> 'v option" where
  "dict_get [] k = None"
| "dict_get ((k', v) # d) k = (if k' = k then Some v else dict_get d k)"

fun dict_set :: "('k, 'v) dict \<Rightarrow> 'k \<Rightarrow> 'v \<Rightarrow> ('k, 'v) dict" where
  "dict_set [] k v = [(k, v)]"
| "dict_set ((k', v') # d) k v =
     (if k' = k then (k, v) # d else (k', v') # dict_set d k v)"

definition keys :: "('k, 'v) dict \<Rightarrow> 'k list" where
  "keys d = map fst d"

text \<open>The distinct elements of a list, in the order of their first occurrences.\<close>

definition first_seen :: "'a list \<Rightarrow> 'a list" where
  "first_seen xs = rev (remdups (rev xs))"

section \<open>RecordMerger: \<open>update_ship_json_files\<close>\<close>

text \<open>
  The values \<open>json.load\<close> produces. A ship file is a JSON object; the values stored in it
  are arbitrary. A float is the number it denotes.
\<close>

datatype jval =
    JNull
  | JBool bool
  | JInt int
  | JFloat real
  | JStr string
  | JArr "jval list"
  | JObj "(string \<times> jval) list"

type_synonym ship_data = "(string, jval) dict"

text \<open>The aggregate: the dictionary \<open>hp_totals\<close>, total health per component type.\<close>

type_synonym hp_totals = "(string, int) dict"

datatype py_error = KeyError | AttributeError | TypeError

text \<open>
  \<open>stored != value\<close> for a stored value read with \<open>.get\<close> (\<open>None\<close> when the key is
  absent) and an integer \<open>value\<close>. Python compares numbers by value across \<open>int\<close>,
  \<open>float\<close> and \<open>bool\<close>; everything else differs from an integer.
\<close>

fun py_ne :: "jval option \<Rightarrow> int \<Rightarrow> bool" where
  "py_ne None value = True"
| "py_ne (Some (JInt i)) value = (i \<noteq> value)"
| "py_ne (Some (JBool b)) value = ((if b then 1 else 0) \<noteq> value)"
| "py_ne (Some (JFloat r)) value = (r \<noteq> of_int value)"
| "py_ne (Some _) value = True"

text \<open>
  \<open>if ship_data[obj].get(key) != value: ship_data[obj][key] = value; changed = True\<close>.
  \<open>.get\<close> on a stored value that is not an object raises.
\<close>

definition update_field ::
  "string \<Rightarrow> string \<Rightarrow> int \<Rightarrow> ship_data \<times> bool \<Rightarrow> py_error + ship_data \<times> bool" where
  "update_field obj key value st =
     (case st of (ship_data, changed) \<Rightarrow>
        (case dict_get ship_data obj of
           None \<Rightarrow> Inl KeyError
         | Some (JObj d) \<Rightarrow>
             if py_ne (dict_get d key) value
             then Inr (dict_set ship_data obj (JObj (dict_set d key (JInt value))), True)
             else Inr (ship_data, changed)
         | Some _ \<Rightarrow> Inl AttributeError))"

text \<open>The body of the loop \<open>for key, value in hp_totals.items()\<close>.\<close>

definition merge_item ::
  "string \<times> int \<Rightarrow> ship_data \<times> bool \<Rightarrow> py_error + ship_data \<times> bool" where
  "merge_item kv st =
     (case kv of (key, value) \<Rightarrow>
        if value > 0 then
          (case update_field ''components'' key value st of
             Inl e \<Rightarrow> Inl e
           | Inr st' \<Rightarrow>
               if key = ''thruster_total_hp''
               then update_field ''thrusters'' ''total_hp'' value st'
               else Inr st')
        else Inr st)"

fun merge_items ::
  "(string \<times> int) list \<Rightarrow> ship_data \<times> bool \<Rightarrow> py_error + ship_data \<times> bool" where
  "merge_items [] st = Inr st"
| "merge_items (kv # kvs) st =
     (case merge_item kv st of Inl e \<Rightarrow> Inl e | Inr st' \<Rightarrow> merge_items kvs st')"

text \<open>\<open>if k not in ship_data: ship_data[k] = {}\<close>.\<close>

definition ensure_object :: "string \<Rightarrow> ship_data \<Rightarrow> ship_data" where
  "ensure_object k ship_data =
     (if dict_get ship_data k = None then dict_set ship_data k (JObj []) else ship_data)"

text \<open>
  The merge of one aggregate into one loaded ship record (the \<open>try\<close> block of
  \<open>update_ship_json_files\<close>): the record after the loop and the flag \<open>changed\<close>, or the
  exception that the \<open>except\<close> clause reports.
\<close>

definition merge :: "ship_data \<Rightarrow> hp_totals \<Rightarrow> py_error + ship_data \<times> bool" where
  "merge ship_data hp_totals =
     merge_items hp_totals
       (ensure_object ''thrusters'' (ensure_object ''components'' ship_data), False)"

text \<open>
  One iteration of the loop over the ship files, for a ship whose XML was found: what
  happens to the file on disk.
\<close>

datatype outcome = Skipped | Failed py_error | Written ship_data | NoChanges

definition update_ship_json :: "ship_data \<Rightarrow> hp_totals \<Rightarrow> outcome" where
  "update_ship_json ship_data hp_totals =
     (if sum_list (map snd hp_totals) = 0 then Skipped
      else case merge ship_data hp_totals of
             Inl e \<Rightarrow> Failed e
           | Inr (ship_data', changed) \<Rightarrow> if changed then Written ship_data' else NoChanges)"

text \<open>The file a second run reads: rewritten only when the first run wrote it.\<close>

definition on_disk :: "ship_data \<Rightarrow> outcome \<Rightarrow> ship_data" where
  "on_disk ship_data out = (case out of Written ship_data' \<Rightarrow> ship_data' | _ \<Rightarrow> ship_data)"

text \<open>The stored value of a component key: \<open>ship_data['components'].get(key)\<close>.\<close>

definition stored :: "ship_data \<Rightarrow> string \<Rightarrow> string \<Rightarrow> jval option" where
  "stored ship_data obj key =
     (case dict_get ship_data obj of Some (JObj d) \<Rightarrow> dict_get d key | _ \<Rightarrow> None)"



section \<open>Aggregation for the merge: \<open>extract_component_hp_from_ship\<close>\<close>

text \<open>
  One \<open>SItemPortLoadoutEntryParams\<close> element of a ship file, as the function reads it:
  the three attributes, each \<open>''\<close> when the element does not carry it.
\<close>

record loadout_entry =
  itemPortName :: string
  entityClassName :: string
  entityClassReference :: string

definition null_guid :: string where
  "null_guid = ''00000000-0000-0000-0000-000000000000''"

text \<open>The \<open>if\<close>/\<open>elif\<close> chain on the lower-cased port name.\<close>

definition component_type :: "string \<Rightarrow> string option" where
  "component_type port_lower =
     (if contains ''turret'' port_lower then Some ''turret_total_hp''
      else if contains ''powerplant'' port_lower \<or> contains ''power_plant'' port_lower
        then Some ''powerplant_total_hp''
      else if contains ''cooler'' port_lower then Some ''cooler_total_hp''
      else if contains ''shield_generator'' port_lower \<or> contains ''shieldgenerator'' port_lower
        then Some ''shield_gen_total_hp''
      else if contains ''quantum'' port_lower \<or> contains ''quantumdrive'' port_lower
        then Some ''qd_total_hp''
      else if contains ''thruster'' port_lower then Some ''thruster_total_hp''
      else None)"

text \<open>
  \<open>hp_totals[k] += n\<close>. The key is always one of the six the dictionary starts with, so
  the statement never raises.
\<close>

definition dict_add :: "hp_totals \<Rightarrow> string \<Rightarrow> int \<Rightarrow> hp_totals" where
  "dict_add hp_totals k n = map (\<lambda>(k', t). if k' = k then (k', t + n) else (k', t)) hp_totals"

definition hp_step ::
  "(string, int) dict \<Rightarrow> (string, string) dict \<Rightarrow> loadout_entry \<Rightarrow> hp_totals \<Rightarrow> hp_totals" where
  "hp_step component_hp_lookup guid_lookup e hp_totals =
     (let guid = entityClassReference e;
          entity_class =
            (if entityClassName e \<noteq> [] then entityClassName e
             else if guid \<noteq> [] \<and> guid \<noteq> null_guid
               then (case dict_get guid_lookup (lower guid) of Some n \<Rightarrow> n | None \<Rightarrow> [])
             else [])
      in if entity_class = [] then hp_totals
         else case component_type (lower (itemPortName e)) of
                None \<Rightarrow> hp_totals
              | Some ct \<Rightarrow>
                  (case dict_get component_hp_lookup (lower entity_class) of
                     Some hp \<Rightarrow> dict_add hp_totals ct hp
                   | None \<Rightarrow> hp_totals))"

definition empty_totals :: hp_totals where
  "empty_totals =
     [(''turret_total_hp'', 0), (''powerplant_total_hp'', 0), (''cooler_total_hp'', 0),
      (''shield_gen_total_hp'', 0), (''qd_total_hp'', 0), (''thruster_total_hp'', 0)]"

text \<open>
  The argument is the list of loadout entries of the ship file in document order, or
  \<open>None\<close> when the file does not parse (the function then returns the zero totals).
\<close>

definition extract_component_hp_from_ship ::
  "loadout_entry list option \<Rightarrow> (string, int) dict \<Rightarrow> (string, string) dict \<Rightarrow> hp_totals" where
  "extract_component_hp_from_ship ship_xml component_hp_lookup guid_lookup =
     (case ship_xml of
        None \<Rightarrow> empty_totals
      | Some entries \<Rightarrow> fold (hp_step component_hp_lookup guid_lookup) entries empty_totals)"

text \<open>An item is settled in a record when merging it would change nothing.\<close>

definition settled :: "ship_data \<Rightarrow> string \<times> int \<Rightarrow> bool" where
  "settled sd kv =
     (snd kv > 0 \<longrightarrow>
        \<not> py_ne (stored sd ''components'' (fst kv)) (snd kv) \<and>
        (fst kv = ''thruster_total_hp'' \<longrightarrow>
           \<not> py_ne (stored sd ''thrusters'' ''total_hp'') (snd kv)))"

text \<open>A stored record and an aggregate to run the merge on.\<close>

definition gladius :: ship_data where
  "gladius = [(''filename'', JStr ''aegs_gladius''),
     (''components'', JObj [(''cooler_total_hp'', JInt 700), (''qd_total_hp'', JInt 5)])]"

definition gladius_totals :: hp_totals where
  "gladius_totals = [(''turret_total_hp'', 0), (''powerplant_total_hp'', 500), (''cooler_total_hp'', 0),
      (''shield_gen_total_hp'', 0), (''qd_total_hp'', 5), (''thruster_total_hp'', 900)]"

definition gladius_merged :: ship_data where
  "gladius_merged = [(''filename'', JStr ''aegs_gladius''),
     (''components'', JObj [(''cooler_total_hp'', JInt 700), (''qd_total_hp'', JInt 5),
        (''powerplant_total_hp'', JInt 500), (''thruster_total_hp'', JInt 900)]),
     (''thrusters'', JObj [(''total_hp'', JInt 900)])]"

section \<open>ComponentCatalog: \<open>build_component_hp_lookup\<close> and \<open>load_armor_data\<close>\<close>

text \<open>\<open>s.endswith(e)\<close>.\<close>

definition endswith :: "string \<Rightarrow> string \<Rightarrow> bool" where
  "endswith s e = suffix e s"

text \<open>
  What the script reads from one component file: the \<open>__ref\<close> attribute of the root
  element (\<open>''\<close> when absent) and the \<open>Health\<close> attribute of the first
  \<open>SHealthComponentParams\<close> element, already through \<open>int(float(...))\<close>:
  \<open>NoHealth\<close> when the element or the attribute is missing, \<open>BadHealth\<close> when the
  conversion raises. A file that is not well-formed XML is a \<open>ParseError\<close>.
\<close>

datatype health_attr = NoHealth | BadHealth | Health int

datatype xml_summary = ParseError | Parsed string health_attr

record component_file =
  file_name :: string
  parsed :: xml_summary

text \<open>
  The body of the inner loop, for one file. The GUID entry is stored before the health
  is converted, so it stays when the conversion raises.
\<close>

definition build_step ::
  "component_file \<Rightarrow> (string, int) dict \<times> (string, string) dict \<Rightarrow>
     (string, int) dict \<times> (string, string) dict" where
  "build_step f st =
     (case st of (component_hp, guid_lookup) \<Rightarrow>
        if \<not> endswith (file_name f) ''.xml'' then st
        else (case parsed f of
                ParseError \<Rightarrow> st
              | Parsed guid h \<Rightarrow>
                 (let component_name = remove_all ''.xml'' (file_name f);
                      guid_lookup' =
                        (if guid \<noteq> [] \<and> guid \<noteq> null_guid
                         then dict_set guid_lookup (lower guid) (lower component_name)
                         else guid_lookup)
                  in (case h of
                        Health hp_value \<Rightarrow>
                          (dict_set component_hp (lower component_name) hp_value, guid_lookup')
                      | _ \<Rightarrow> (component_hp, guid_lookup')))))"

text \<open>
  The argument lists, for each entry of \<open>COMPONENT_DIRS\<close> in order, the files that
  \<open>os.walk\<close> yields under that directory, in the order it yields them; \<open>None\<close> for a
  directory that does not exist.
\<close>

definition walk_files :: "component_file list option list \<Rightarrow> component_file list" where
  "walk_files dirs = concat (map (\<lambda>d. case d of None \<Rightarrow> [] | Some fs \<Rightarrow> fs) dirs)"

definition build_component_hp_lookup ::
  "component_file list option list \<Rightarrow> (string, int) dict \<times> (string, string) dict" where
  "build_component_hp_lookup dirs = fold build_step (walk_files dirs) ([], [])"

text \<open>The key a component file is stored under: \<open>component_name.lower()\<close>.\<close>

definition component_key :: "component_file \<Rightarrow> string" where
  "component_key f = lower (remove_all ''.xml'' (file_name f))"


text \<open>
  An armor file as \<open>load_armor_data\<close> reads it: the stem of the file name and, unless
  the file cannot be read or shows no \<open>Health="..."\<close>, the record built from it. The
  resistance multipliers are the numbers \<open>float\<close> returns (1.0 when the file does not
  give one).
\<close>

record part =
  health :: int

record armor = part +
  resist_physical :: real
  resist_energy :: real
  resist_distortion :: real
  resist_thermal :: real
  resist_biochemical :: real
  resist_stun :: real

record armor_file =
  stem :: string
  armor_values :: "armor option"

text \<open>The two keys an armor file is stored under: \<open>filename\<close> and \<open>clean_name\<close>.\<close>

definition armor_keys :: "armor_file \<Rightarrow> string list" where
  "armor_keys f =
     [lower (stem f), remove_all ''_scitem'' (remove_all ''armr_'' (lower (stem f)))]"

definition load_armor_step :: "armor_file \<Rightarrow> (string, armor) dict \<Rightarrow> (string, armor) dict" where
  "load_armor_step f armor_data =
     (case armor_values f of
        None \<Rightarrow> armor_data
      | Some a \<Rightarrow>
          (let filename = lower (stem f);
               armor_data' = dict_set armor_data filename a;
               clean_name = remove_all ''_scitem'' (remove_all ''armr_'' filename)
           in dict_set armor_data' clean_name a))"

definition load_armor_data :: "armor_file list option \<Rightarrow> (string, armor) dict" where
  "load_armor_data armor_dir =
     (case armor_dir of None \<Rightarrow> [] | Some fs \<Rightarrow> fold load_armor_step fs [])"

definition powr_first :: component_file where
  "powr_first = \<lparr>file_name = ''POWR_AEGS_S01.xml'', parsed = Parsed [] (Health 100)\<rparr>"

definition powr_second :: component_file where
  "powr_second = \<lparr>file_name = ''powr_aegs_s01.xml'', parsed = Parsed [] (Health 250)\<rparr>"

definition plain_armor :: "int \<Rightarrow> armor" where
  "plain_armor h = \<lparr>health = h, resist_physical = 1, resist_energy = 1, resist_distortion = 1,
     resist_thermal = 1, resist_biochemical = 1, resist_stun = 1\<rparr>"

definition armr_first :: armor_file where
  "armr_first = \<lparr>stem = ''ARMR_AEGS_Gladius'', armor_values = Some (plain_armor 900)\<rparr>"

definition armr_second :: armor_file where
  "armr_second = \<lparr>stem = ''armr_aegs_gladius'', armor_values = Some (plain_armor 1200)\<rparr>"

text \<open>
  The records the files contribute to the two catalogs, in traversal order: a component
  file that carries a health value gives one record under its key, an armor file with
  values gives the same record under each of its two keys.
\<close>

definition hp_record :: "component_file \<Rightarrow> (string \<times> int) option" where
  "hp_record f =
     (if endswith (file_name f) ''.xml'' then
        (case parsed f of
           Parsed guid (Health hp) \<Rightarrow> Some (component_key f, hp)
         | _ \<Rightarrow> None)
      else None)"

definition hp_records :: "component_file list \<Rightarrow> (string \<times> int) list" where
  "hp_records fs = List.map_filter hp_record fs"

definition armor_records :: "armor_file list \<Rightarrow> (string \<times> armor) list" where
  "armor_records fs =
     concat (map (\<lambda>f. case armor_values f of
                          None \<Rightarrow> []
                        | Some a \<Rightarrow> map (\<lambda>k. (k, a)) (armor_keys f)) fs)"

definition cool_between :: component_file where
  "cool_between = \<lparr>file_name = ''COOL_AEGS_S01.xml'', parsed = Parsed [] (Health 80)\<rparr>"

section \<open>HardpointClassifier: \<open>categorize_hardpoints\<close>\<close>

datatype category =
    Thrusters | Turrets | Armor | Powerplant | Cooler | Shield | Quantumdrive
  | Weapons | Missiles | Other

text \<open>The \<open>if\<close>/\<open>elif\<close> chain of \<open>categorize_hardpoints\<close>: the list an item is appended to.\<close>

definition classify :: "string \<Rightarrow> string \<Rightarrow> category" where
  "classify port_name entity_class =
     (if contains ''thruster'' port_name \<or> contains ''thruster'' entity_class then Thrusters
      else if contains ''turret'' port_name \<or> contains ''turret'' entity_class then Turrets
      else if contains ''armor'' port_name \<or> contains ''armr_'' entity_class then Armor
      else if contains ''power'' port_name then Powerplant
      else if contains ''cooler'' port_name then Cooler
      else if contains ''shield'' port_name then Shield
      else if contains ''quantum'' port_name then Quantumdrive
      else if contains ''weapon'' port_name \<or> contains ''gun'' port_name then Weapons
      else if contains ''missile'' port_name \<or> contains ''pylon'' port_name then Missiles
      else Other)"

text \<open>
  \<open>categorize_hardpoints\<close>: the dictionary \<open>categories\<close> has one list per category, so it
  is a function on the categories; each item of \<open>mappings\<close> is appended to one list.
\<close>

definition categorize_hardpoints ::
  "(string, string) dict \<Rightarrow> category \<Rightarrow> (string \<times> string) list" where
  "categorize_hardpoints mappings =
     fold (\<lambda>(port_name, entity_class) categories.
             categories(classify port_name entity_class :=
               categories (classify port_name entity_class) @ [(port_name, entity_class)]))
          mappings (\<lambda>c. [])"

text \<open>
  The classifier as an ordered rule table, first match wins: the rules in the order of
  the chain, each with the test the code makes.
\<close>

definition rule_table :: "((string \<Rightarrow> string \<Rightarrow> bool) \<times> category) list" where
  "rule_table =
     [(\<lambda>p e. contains ''thruster'' p \<or> contains ''thruster'' e, Thrusters),
      (\<lambda>p e. contains ''turret'' p \<or> contains ''turret'' e, Turrets),
      (\<lambda>p e. contains ''armor'' p \<or> contains ''armr_'' e, Armor),
      (\<lambda>p e. contains ''power'' p, Powerplant),
      (\<lambda>p e. contains ''cooler'' p, Cooler),
      (\<lambda>p e. contains ''shield'' p, Shield),
      (\<lambda>p e. contains ''quantum'' p, Quantumdrive),
      (\<lambda>p e. contains ''weapon'' p \<or> contains ''gun'' p, Weapons),
      (\<lambda>p e. contains ''missile'' p \<or> contains ''pylon'' p, Missiles)]"

fun first_match :: "((string \<Rightarrow> string \<Rightarrow> bool) \<times> category) list \<Rightarrow> string \<Rightarrow> string \<Rightarrow> category" where
  "first_match [] p e = Other"
| "first_match ((test, c) # rules) p e = (if test p e then c else first_match rules p e)"


text \<open>Pairs to classify.\<close>

definition generator_port :: string where
  "generator_port = ''hardpoint_generator_left''"

definition powerplant_entity :: string where
  "powerplant_entity = ''aegs_powerplant_s1''"

section \<open>EntityResolver and Aggregator: the loops of \<open>process_all_ships\<close>\<close>

text \<open>A thruster or turret of the catalog: the dictionary with \<open>health\<close> and \<open>filename\<close>.\<close>

record thruster = part +
  filename :: string

text \<open>
  The approximate step for thrusters: the loop over \<open>thruster_data.keys()\<close> with its
  \<open>break\<close>. The keys of a dictionary are distinct, so \<open>thruster_data[thruster_key]\<close> is
  the value listed with the key. \<open>hp\<close> stays 0 when no key matches.
\<close>

fun scan_thrusters :: "(string, thruster) dict \<Rightarrow> string \<Rightarrow> int" where
  "scan_thrusters [] entity_lower = 0"
| "scan_thrusters ((thruster_key, t) # rest) entity_lower =
     (if contains entity_lower thruster_key \<or> contains thruster_key entity_lower
      then health t
      else scan_thrusters rest entity_lower)"

text \<open>The health of a thruster entity: the direct match, else the match by pattern.\<close>

definition thruster_hp :: "(string, thruster) dict \<Rightarrow> string \<Rightarrow> int" where
  "thruster_hp thruster_data entity_lower =
     (case dict_get thruster_data entity_lower of
        Some t \<Rightarrow> health t
      | None \<Rightarrow> scan_thrusters thruster_data entity_lower)"

record thruster_totals =
  thruster_count :: int
  thruster_main_hp :: int
  thruster_retro_hp :: int
  thruster_mav_hp :: int
  thruster_vtol_hp :: int

definition thruster_step ::
  "(string, thruster) dict \<Rightarrow> string \<times> string \<Rightarrow> thruster_totals \<Rightarrow> thruster_totals" where
  "thruster_step thruster_data pe t =
     (case pe of (port_name, entity_class) \<Rightarrow>
        (let entity_lower = lower entity_class;
             hp = thruster_hp thruster_data entity_lower
         in if hp > 0 then
              (let t' = t\<lparr>thruster_count := thruster_count t + 1\<rparr>
               in if contains ''main'' (lower port_name) \<or> contains ''main'' entity_lower
                    then t'\<lparr>thruster_main_hp := thruster_main_hp t + hp\<rparr>
                  else if contains ''retro'' (lower port_name) \<or> contains ''retro'' entity_lower
                    then t'\<lparr>thruster_retro_hp := thruster_retro_hp t + hp\<rparr>
                  else if contains ''vtol'' (lower port_name) \<or> contains ''vtol'' entity_lower
                    then t'\<lparr>thruster_vtol_hp := thruster_vtol_hp t + hp\<rparr>
                  else t'\<lparr>thruster_mav_hp := thruster_mav_hp t + hp\<rparr>)
            else t))"

definition ship_thrusters ::
  "(string, thruster) dict \<Rightarrow> (string \<times> string) list \<Rightarrow> thruster_totals" where
  "ship_thrusters thruster_data thrusters =
     fold (thruster_step thruster_data) thrusters
       \<lparr>thruster_count = 0, thruster_main_hp = 0, thruster_retro_hp = 0,
        thruster_mav_hp = 0, thruster_vtol_hp = 0\<rparr>"

definition thruster_total_hp :: "thruster_totals \<Rightarrow> int" where
  "thruster_total_hp t =
     thruster_main_hp t + thruster_retro_hp t + thruster_mav_hp t + thruster_vtol_hp t"

text \<open>Turrets: every entity found in the catalog is counted.\<close>

definition turret_step ::
  "(string, thruster) dict \<Rightarrow> string \<times> string \<Rightarrow> int \<times> int \<Rightarrow> int \<times> int" where
  "turret_step turret_data pe acc =
     (case (pe, acc) of ((port_name, entity_class), (turret_total_hp, turret_count)) \<Rightarrow>
        (case dict_get turret_data (lower entity_class) of
           Some t \<Rightarrow> (turret_total_hp + health t, turret_count + 1)
         | None \<Rightarrow> (turret_total_hp, turret_count)))"

definition ship_turrets ::
  "(string, thruster) dict \<Rightarrow> (string \<times> string) list \<Rightarrow> int \<times> int" where
  "ship_turrets turret_data turrets = fold (turret_step turret_data) turrets (0, 0)"

text \<open>
  Power plants, coolers, shields and quantum drives run the same loop, each on its own
  dictionary of \<open>component_data\<close>: \<open>.get(entity_lower, 0)\<close>, then the same without
  \<open>_scitem\<close> when that gave 0.
\<close>

definition component_hp :: "(string, int) dict \<Rightarrow> string \<Rightarrow> int" where
  "component_hp components entity_lower =
     (let hp = (case dict_get components entity_lower of Some h \<Rightarrow> h | None \<Rightarrow> 0)
      in if hp = 0
         then (case dict_get components (remove_all ''_scitem'' entity_lower) of
                 Some h \<Rightarrow> h | None \<Rightarrow> 0)
         else hp)"

definition component_step ::
  "(string, int) dict \<Rightarrow> string \<times> string \<Rightarrow> int \<times> int \<Rightarrow> int \<times> int" where
  "component_step components pe acc =
     (case (pe, acc) of ((port_name, entity_class), (total_hp, count)) \<Rightarrow>
        (let hp = component_hp components (lower entity_class)
         in if hp > 0 then (total_hp + hp, count + 1) else (total_hp, count)))"

definition ship_components ::
  "(string, int) dict \<Rightarrow> (string \<times> string) list \<Rightarrow> int \<times> int" where
  "ship_components components entries = fold (component_step components) entries (0, 0)"

text \<open>
  Armor: health and the three resistances the ship row keeps. The first loop takes the
  first armor entry whose entity is a key of \<open>armor_data\<close>.
\<close>

type_synonym armor_row = "int \<times> real \<times> real \<times> real"

definition armor_row_of :: "armor \<Rightarrow> armor_row" where
  "armor_row_of a = (health a, resist_physical a, resist_energy a, resist_distortion a)"

fun armor_direct :: "(string, armor) dict \<Rightarrow> (string \<times> string) list \<Rightarrow> armor option" where
  "armor_direct armor_data [] = None"
| "armor_direct armor_data ((port_name, entity_class) # rest) =
     (case dict_get armor_data (lower entity_class) of
        Some a \<Rightarrow> Some a
      | None \<Rightarrow> armor_direct armor_data rest)"

text \<open>
  The second loop, over \<open>armor_data.keys()\<close>: the first key that contains the ship's file
  name (\<open>filename\<close> in the source) or is contained in it, underscores removed from both.
\<close>

fun armor_by_ship_name :: "(string, armor) dict \<Rightarrow> string \<Rightarrow> armor option" where
  "armor_by_ship_name [] ship_file = None"
| "armor_by_ship_name ((armor_key, a) # rest) ship_file =
     (let ship_parts = remove_all ''_'' (lower ship_file);
          armor_parts = remove_all ''_'' armor_key
      in if contains ship_parts armor_parts \<or> contains armor_parts ship_parts
         then Some a
         else armor_by_ship_name rest ship_file)"

definition ship_armor ::
  "(string, armor) dict \<Rightarrow> string \<Rightarrow> (string \<times> string) list \<Rightarrow> armor_row" where
  "ship_armor armor_data ship_file armor_entries =
     (let row = (case armor_direct armor_data armor_entries of
                   Some a \<Rightarrow> armor_row_of a
                 | None \<Rightarrow> (0, 1, 1, 1))
      in if fst row = 0
         then (case armor_by_ship_name armor_data ship_file of
                 Some a \<Rightarrow> armor_row_of a
               | None \<Rightarrow> row)
         else row)"

text \<open>Catalogs and entries to run the loops on.\<close>

definition main_thrusters :: "(string, thruster) dict" where
  "main_thrusters = [(''thr_main'', \<lparr>health = 450, filename = ''thr_main''\<rparr>)]"

definition dead_thrusters :: "(string, thruster) dict" where
  "dead_thrusters = [(''thr_dead'', \<lparr>health = 0, filename = ''thr_dead''\<rparr>)]"

definition gladius_armor :: "(string, armor) dict" where
  "gladius_armor = [(''armr_none'', plain_armor 0), (''aegs_gladius'', plain_armor 900)]"

section \<open>RecursiveLoadoutWalker: \<open>parse_loadout_entry\<close>\<close>

text \<open>An element of a parsed XML file: tag, attributes, child elements in order.\<close>

datatype xml = Element (tag: string) (attrib: "(string \<times> string) list") (children: "xml list")

text \<open>\<open>e.get(k, '')\<close>.\<close>

definition get_attr :: "xml \<Rightarrow> string \<Rightarrow> string" where
  "get_attr e k = (case dict_get (attrib e) k of Some v \<Rightarrow> v | None \<Rightarrow> [])"

text \<open>The proper descendants of an element, in document order.\<close>

fun descendants :: "xml \<Rightarrow> xml list" where
  "descendants (Element t a cs) = concat (map (\<lambda>c. c # descendants c) cs)"

text \<open>
  \<open>e.findall('.//t')\<close>: the proper descendants with tag \<open>t\<close>, in document order.
  \<open>e.iter(t)\<close>: the same, with \<open>e\<close> itself first when its tag is \<open>t\<close>.
\<close>

definition findall :: "xml \<Rightarrow> string \<Rightarrow> xml list" where
  "findall e t = filter (\<lambda>x. tag x = t) (descendants e)"

definition iter :: "xml \<Rightarrow> string \<Rightarrow> xml list" where
  "iter e t = filter (\<lambda>x. tag x = t) (e # descendants e)"

definition is_weapon_class :: "string \<Rightarrow> bool" where
  "is_weapon_class name =
     (name \<noteq> [] \<and>
      (let name_upper = upper name in
         (\<exists>prefix \<in> set [''BEHR_'', ''KLWE_'', ''AMRS_'', ''GATS_'', ''APAR_'', ''KRIG_'',
                           ''VNCL_'', ''TALN_'', ''MISL_'', ''AEGS_'', ''ANVL_'', ''HURSTON_'',
                           ''JOKER_'', ''MAXOX_'', ''KBAR_'', ''SPCD_''].
            startswith name_upper prefix) \<or>
         (\<exists>kw \<in> set [''LASER'', ''CANNON'', ''REPEATER'', ''GATLING'', ''BALLISTIC'',
                       ''MASS'', ''DRIVER'', ''DISTORTION'', ''TORPEDO'', ''MISSILE''].
            contains kw name_upper)))"

definition entry_tag :: string where
  "entry_tag = ''SItemPortLoadoutEntryParams''"

text \<open>What an entry itself adds to \<open>results\<close>: the pair of its port and its weapon.\<close>

definition own_weapon :: "xml \<Rightarrow> (string \<times> string) list" where
  "own_weapon entry =
     (let port_name = get_attr entry ''itemPortName'';
          entity_class = get_attr entry ''entityClassName''
      in if entity_class \<noteq> [] \<and> is_weapon_class entity_class
         then [(port_name, lower entity_class)] else [])"

text \<open>The sub-entries of the four nested \<open>for\<close> loops, in the order the loops reach them.\<close>

definition nested_entries :: "xml \<Rightarrow> xml list" where
  "nested_entries entry =
     concat (map (\<lambda>loadout.
       concat (map (\<lambda>manual_params.
         concat (map (\<lambda>entries. findall entries entry_tag)
           (findall manual_params ''entries'')))
         (findall loadout ''SItemPortLoadoutManualParams'')))
       (findall entry ''loadout''))"

text \<open>
  The sub-entries of the last loop, with its guard \<open>sub_entry != entry\<close>. An element
  found below the entry is never the entry itself, so the guard lets every one through.
\<close>

definition direct_entries :: "xml \<Rightarrow> xml list" where
  "direct_entries entry = filter (\<lambda>sub_entry. sub_entry \<noteq> entry) (findall entry entry_tag)"

lemma descendants_smaller: "x \<in> set (descendants e) \<Longrightarrow> size x < size e"
proof (induction e arbitrary: x)
  case (Element t a cs)
  from Element.prems obtain c where c: "c \<in> set cs" and x: "x = c \<or> x \<in> set (descendants c)"
    by auto
  have "size c \<le> size_list size cs" using c by (rule size_list_estimation') simp
  then have "size c < size (Element t a cs)" by simp
  with x Element.IH [OF c] show ?case by force
qed

lemma findall_smaller: "x \<in> set (findall e t) \<Longrightarrow> size x < size e"
  by (simp add: findall_def descendants_smaller)

lemma nested_entries_smaller: "x \<in> set (nested_entries e) \<Longrightarrow> size x < size e"
  by (auto simp: nested_entries_def dest!: findall_smaller)

lemma direct_entries_smaller: "x \<in> set (direct_entries e) \<Longrightarrow> size x < size e"
  by (auto simp: direct_entries_def dest!: findall_smaller)

function parse_loadout_entry :: "xml \<Rightarrow> int \<Rightarrow> (string \<times> string) list" where
  "parse_loadout_entry entry depth =
     own_weapon entry
     @ concat (map (\<lambda>sub_entry. parse_loadout_entry sub_entry (depth + 1)) (nested_entries entry))
     @ concat (map (\<lambda>sub_entry. parse_loadout_entry sub_entry (depth + 1)) (direct_entries entry))"
  by pat_completeness auto
termination
  by (relation "measure (\<lambda>(entry, depth). size entry)")
     (auto dest: nested_entries_smaller direct_entries_smaller)

declare parse_loadout_entry.simps [simp del]



definition laser :: xml where
  "laser = Element entry_tag
     [(''itemPortName'', ''hardpoint_class_2''), (''entityClassName'', ''BEHR_LaserCannon_S2'')] []"

text \<open>A turret mount with one weapon, nested the way the game files nest it.\<close>

definition turret_mount :: xml where
  "turret_mount = Element entry_tag
     [(''itemPortName'', ''hardpoint_turret''), (''entityClassName'', ''Mount_Gimbal_S2'')]
     [Element ''loadout'' []
        [Element ''SItemPortLoadoutManualParams'' []
           [Element ''entries'' [] [laser]]]]"

section \<open>Missile racks: \<open>extract_missiles_from_xml\<close>\<close>

text \<open>
  \<open>re.search(r'MISL_S(\d+)', s, re.I)\<close>: the digits captured by the leftmost match, if
  there is one. At a position the pattern matches when the next six characters are
  \<open>MISL_S\<close> in any case and at least one digit follows; the group takes all the digits
  that follow.
\<close>

definition is_digit :: "char \<Rightarrow> bool" where
  "is_digit c = (c \<in> set ''0123456789'')"

definition match_here :: "string \<Rightarrow> string option" where
  "match_here s =
     (if upper (take 6 s) = ''MISL_S'' \<and> takeWhile is_digit (drop 6 s) \<noteq> []
      then Some (takeWhile is_digit (drop 6 s)) else None)"

fun search_size :: "string \<Rightarrow> string option" where
  "search_size [] = None"
| "search_size (c # cs) =
     (case match_here (c # cs) of Some ds \<Rightarrow> Some ds | None \<Rightarrow> search_size cs)"

text \<open>\<open>int(ds)\<close> for a string of decimal digits.\<close>

definition digit_value :: "char \<Rightarrow> int" where
  "digit_value c =
     (case map_of (zip ''0123456789'' [0, 1, 2, 3, 4, 5, 6, 7, 8, 9]) c of
        Some d \<Rightarrow> d
      | None \<Rightarrow> 0)"

definition decimal :: "string \<Rightarrow> int" where
  "decimal ds = foldl (\<lambda>n c. 10 * n + digit_value c) 0 ds"

text \<open>
  The inner loop over \<open>entry.iter('SItemPortLoadoutEntryParams')\<close>, which is the same in
  both branches but for the size taken when the name shows none.
\<close>

definition rack_missiles :: "int \<Rightarrow> xml \<Rightarrow> (int \<times> string) list" where
  "rack_missiles default_size entry =
     map (\<lambda>sub_entry.
            (let sub_entity = get_attr sub_entry ''entityClassName'';
                 size_match = search_size sub_entity
             in ((case size_match of Some ds \<Rightarrow> decimal ds | None \<Rightarrow> default_size),
                 lower sub_entity)))
         (filter (\<lambda>sub_entry. startswith (upper (get_attr sub_entry ''entityClassName'')) ''MISL_'')
            (iter entry entry_tag))"

text \<open>The body of the outer loop, with both branches as the source has them.\<close>

definition missile_step ::
  "xml \<Rightarrow> (string, (int \<times> string) list) dict \<Rightarrow> (string, (int \<times> string) list) dict" where
  "missile_step entry missile_loadouts =
     (let port_name = lower (get_attr entry ''itemPortName'');
          entity_class = get_attr entry ''entityClassName''
      in if startswith (upper entity_class) ''MRCK_'' then
           (let missiles = rack_missiles 2 entry
            in if missiles \<noteq> [] then dict_set missile_loadouts port_name missiles
               else missile_loadouts)
         else if contains ''torpedo'' port_name \<and> startswith (upper entity_class) ''MRCK_'' then
           (let torpedoes = rack_missiles 5 entry
            in if torpedoes \<noteq> [] then dict_set missile_loadouts port_name torpedoes
               else missile_loadouts)
         else missile_loadouts)"

text \<open>The argument is the root of the ship file, or \<open>None\<close> when the file does not parse.\<close>

definition extract_missiles_from_xml ::
  "xml option \<Rightarrow> (string, (int \<times> string) list) dict" where
  "extract_missiles_from_xml ship_xml =
     (case ship_xml of
        None \<Rightarrow> []
      | Some root_elem \<Rightarrow> fold missile_step (iter root_elem entry_tag) [])"

text \<open>A torpedo rack whose torpedo's name shows no size.\<close>

definition torpedo_rack :: xml where
  "torpedo_rack = Element entry_tag
     [(''itemPortName'', ''hardpoint_torpedo_rack''), (''entityClassName'', ''MRCK_S05_Torpedo'')]
     [Element entry_tag
        [(''itemPortName'', ''missile_01_attach''), (''entityClassName'', ''MISL_TORP_Argos'')] []]"

section \<open>Hardpoint mappings: \<open>extract_hardpoint_mappings\<close> and the ship row\<close>

text \<open>
  The pattern of \<open>extract_hardpoint_mappings\<close>,
  \<^verbatim>\<open>itemPortName="([^"]+)"[^>]*entityClassName="([^"]+)"\<close>, matched with
  \<open>re.IGNORECASE\<close> on the text of the ship file. The double quote is written \<open>dquote\<close>.
\<close>

definition dquote :: char where
  "dquote = CHR 0x22"

text \<open>A literal of the pattern matches the start of the text, letters in either case.\<close>

fun ci_prefix :: "string \<Rightarrow> string \<Rightarrow> bool" where
  "ci_prefix [] s = True"
| "ci_prefix (l # ls) [] = False"
| "ci_prefix (l # ls) (c # cs) =
     (if lower_char c = lower_char l then ci_prefix ls cs else False)"

text \<open>
  \<^verbatim>\<open>([^"]+)"\<close> at the start of the text: the characters up to the next double quote, at
  least one, and the text after that quote.
\<close>

definition quoted_value :: "string \<Rightarrow> (string \<times> string) option" where
  "quoted_value s =
     (let v = takeWhile (\<lambda>c. c \<noteq> dquote) s;
          r = dropWhile (\<lambda>c. c \<noteq> dquote) s
      in if v \<noteq> [] \<and> r \<noteq> [] then Some (v, tl r) else None)"

text \<open>\<^verbatim>\<open>entityClassName="([^"]+)"\<close> at the start of the text.\<close>

definition entity_here :: "string \<Rightarrow> (string \<times> string) option" where
  "entity_here s =
     (if ci_prefix (''entityClassName='' @ [dquote]) s then quoted_value (drop 17 s) else None)"

text \<open>
  \<^verbatim>\<open>[^>]*entityClassName="([^"]+)"\<close>: the star is greedy, so of the places it can stop,
  all before the next \<open>>\<close>, the last one where the rest of the pattern matches is taken.
\<close>

fun entity_after :: "string \<Rightarrow> (string \<times> string) option" where
  "entity_after [] = None"
| "entity_after (c # cs) =
     (case (if c \<noteq> CHR ''>'' then entity_after cs else None) of
        Some m \<Rightarrow> Some m
      | None \<Rightarrow> entity_here (c # cs))"

text \<open>The whole pattern at the start of the text: the two groups and the text after the match.\<close>

definition match_at :: "string \<Rightarrow> ((string \<times> string) \<times> string) option" where
  "match_at s =
     (if ci_prefix (''itemPortName='' @ [dquote]) s then
        (case quoted_value (drop 14 s) of
           None \<Rightarrow> None
         | Some (port_name, r) \<Rightarrow>
             (case entity_after r of
                None \<Rightarrow> None
              | Some (entity_class, r') \<Rightarrow> Some ((port_name, entity_class), r')))
      else None)"

lemma quoted_value_shorter: "quoted_value s = Some (v, r) \<Longrightarrow> length r < length s"
proof -
  assume a: "quoted_value s = Some (v, r)"
  let ?d = "dropWhile (\<lambda>c. c \<noteq> dquote) s"
  from a have d: "?d \<noteq> []" and r: "r = tl ?d"
    by (auto simp: quoted_value_def Let_def split: if_splits)
  have "length ?d \<le> length s" by (rule length_dropWhile_le)
  moreover from d have "length (tl ?d) < length ?d" by (cases ?d) auto
  ultimately show ?thesis using r by simp
qed

lemma entity_here_shorter: "entity_here s = Some (v, r) \<Longrightarrow> length r < length s"
proof -
  assume "entity_here s = Some (v, r)"
  then have "quoted_value (drop 17 s) = Some (v, r)"
    by (simp add: entity_here_def split: if_splits)
  from quoted_value_shorter [OF this] show ?thesis by simp
qed

lemma entity_after_shorter: "entity_after s = Some (v, r) \<Longrightarrow> length r < length s"
proof (induction s)
  case Nil
  then show ?case by simp
next
  case (Cons c cs)
  show ?case
  proof (cases "if c \<noteq> CHR ''>'' then entity_after cs else None")
    case None
    with Cons.prems have "entity_here (c # cs) = Some (v, r)" by simp
    from entity_here_shorter [OF this] show ?thesis .
  next
    case (Some m)
    with Cons.prems have "entity_after cs = Some (v, r)" by (simp split: if_splits)
    from Cons.IH [OF this] show ?thesis by simp
  qed
qed

lemma match_at_shorter: "match_at s = Some (m, r) \<Longrightarrow> length r < length s"
proof -
  assume a: "match_at s = Some (m, r)"
  then obtain p r1 e where q: "quoted_value (drop 14 s) = Some (p, r1)"
    and ea: "entity_after r1 = Some (e, r)"
    by (auto simp: match_at_def split: if_splits option.splits)
  from quoted_value_shorter [OF q] entity_after_shorter [OF ea] show ?thesis by simp
qed

text \<open>
  \<open>re.findall\<close>: the matches from left to right, each search starting where the match
  before it ended.
\<close>

function hardpoint_matches :: "string \<Rightarrow> (string \<times> string) list" where
  "hardpoint_matches [] = []"
| "hardpoint_matches (c # cs) =
     (case match_at (c # cs) of
        Some (m, r) \<Rightarrow> m # hardpoint_matches r
      | None \<Rightarrow> hardpoint_matches cs)"
  by pat_completeness auto
termination
proof (relation "measure length")
  show "wf (measure length)" by simp
next
  fix c cs x2 x y
  assume "match_at (c # cs) = Some x2" "(x, y) = x2"
  then have "match_at (c # cs) = Some (x, y)" by simp
  from match_at_shorter [OF this] show "(y, c # cs) \<in> measure length" by simp
next
  fix c cs
  show "(cs, c # cs) \<in> measure length" by simp
qed

text \<open>The loop of \<open>extract_hardpoint_mappings\<close> over the matches.\<close>

definition store_matches :: "(string \<times> string) list \<Rightarrow> (string, string) dict" where
  "store_matches matches =
     fold (\<lambda>(port_name, entity_class) mappings.
             dict_set mappings (lower port_name) (lower entity_class))
          matches []"

definition extract_hardpoint_mappings :: "string \<Rightarrow> (string, string) dict" where
  "extract_hardpoint_mappings content = store_matches (hardpoint_matches content)"

text \<open>The text of an attachment entry with the given attributes, to write ship files with.\<close>

definition attr :: "string \<Rightarrow> string \<Rightarrow> string" where
  "attr n v = '' '' @ n @ ''='' @ [dquote] @ v @ [dquote]"

definition entry_text :: "(string \<times> string) list \<Rightarrow> string" where
  "entry_text attrs = ''<E'' @ concat (map (\<lambda>(n, v). attr n v) attrs) @ ''/>''"

text \<open>The catalogs \<open>process_all_ships\<close> is called with.\<close>

record catalogs =
  cat_armor :: "(string, armor) dict"
  cat_thruster :: "(string, thruster) dict"
  cat_turret :: "(string, thruster) dict"
  cat_powerplant :: "(string, int) dict"
  cat_cooler :: "(string, int) dict"
  cat_shieldgenerator :: "(string, int) dict"
  cat_quantumdrive :: "(string, int) dict"

text \<open>
  What \<open>process_all_ships\<close> computes for one ship from its hardpoint mappings: the armor
  row, the thruster totals, total and count for turrets and for each component type,
  and the three hardpoint counts.
\<close>

record ship_parts =
  armor_part :: armor_row
  thruster_part :: thruster_totals
  turret_part :: "int \<times> int"
  powerplant_part :: "int \<times> int"
  cooler_part :: "int \<times> int"
  shield_gen_part :: "int \<times> int"
  qd_part :: "int \<times> int"
  weapon_hardpoints :: int
  missile_hardpoints :: int
  total_hardpoints :: int

definition ship_parts_of :: "catalogs \<Rightarrow> string \<Rightarrow> (string, string) dict \<Rightarrow> ship_parts" where
  "ship_parts_of cat ship_file hardpoint_mappings =
     (let categorized = categorize_hardpoints hardpoint_mappings
      in \<lparr>armor_part = ship_armor (cat_armor cat) ship_file (categorized Armor),
          thruster_part = ship_thrusters (cat_thruster cat) (categorized Thrusters),
          turret_part = ship_turrets (cat_turret cat) (categorized Turrets),
          powerplant_part = ship_components (cat_powerplant cat) (categorized Powerplant),
          cooler_part = ship_components (cat_cooler cat) (categorized Cooler),
          shield_gen_part = ship_components (cat_shieldgenerator cat) (categorized Shield),
          qd_part = ship_components (cat_quantumdrive cat) (categorized Quantumdrive),
          weapon_hardpoints = int (length (categorized Weapons)),
          missile_hardpoints = int (length (categorized Missiles)),
          total_hardpoints = int (length hardpoint_mappings)\<rparr>)"

text \<open>
  A ship file that names one thruster port twice, in different case, and a catalog
  with both thrusters.
\<close>

definition thruster_twice :: string where
  "thruster_twice =
     entry_text [(''itemPortName'', ''hardpoint_thruster_main''), (''entityClassName'', ''THR_Main_S3'')] @
     entry_text [(''itemPortName'', ''hardpoint_cooler''), (''entityClassName'', ''COOL_S1'')] @
     entry_text [(''itemPortName'', ''Hardpoint_Thruster_Main''), (''entityClassName'', ''THR_Main_S1'')]"

definition sample_catalogs :: catalogs where
  "sample_catalogs =
     \<lparr>cat_armor = [],
      cat_thruster = [(''thr_main_s3'', \<lparr>health = 450, filename = ''thr_main_s3''\<rparr>),
                      (''thr_main_s1'', \<lparr>health = 120, filename = ''thr_main_s1''\<rparr>)],
      cat_turret = [], cat_powerplant = [], cat_cooler = [(''cool_s1'', 300)],
      cat_shieldgenerator = [], cat_quantumdrive = []\<rparr>"

text \<open>
  A ship file with two entries for the cooler port, the second one with an empty
  \<open>entityClassName\<close> and its entity given by reference; and one whose second entry
  writes \<open>entityClassName\<close> before \<open>itemPortName\<close>.
\<close>

definition cooler_by_reference :: string where
  "cooler_by_reference =
     entry_text [(''itemPortName'', ''hardpoint_cooler''), (''entityClassName'', ''COOL_S1'')] @
     entry_text [(''itemPortName'', ''hardpoint_cooler''), (''entityClassName'', ''''),
                 (''entityClassReference'', ''0a1b'')]"

definition cooler_reversed :: string where
  "cooler_reversed =
     entry_text [(''itemPortName'', ''hardpoint_cooler''), (''entityClassName'', ''COOL_S1'')] @
     entry_text [(''entityClassName'', ''COOL_S2''), (''itemPortName'', ''hardpoint_cooler'')]"

section \<open>Case folding of the ASCII characters\<close>

lemma lower_char_ascii:
  "lower_char (CHR '' '') = CHR '' ''" "lower_char (CHR ''!'') = CHR ''!''"
  "lower_char (CHR 0x22) = CHR 0x22" "lower_char (CHR ''#'') = CHR ''#''"
  "lower_char (CHR ''$'') = CHR ''$''" "lower_char (CHR ''%'') = CHR ''%''"
  "lower_char (CHR ''&'') = CHR ''&''" "lower_char (CHR 0x27) = CHR 0x27"
  "lower_char (CHR ''('') = CHR ''(''" "lower_char (CHR '')'') = CHR '')''"
  "lower_char (CHR ''*'') = CHR ''*''" "lower_char (CHR ''+'') = CHR ''+''"
  "lower_char (CHR '','') = CHR '',''" "lower_char (CHR ''-'') = CHR ''-''"
  "lower_char (CHR ''.'') = CHR ''.''" "lower_char (CHR ''/'') = CHR ''/''"
  "lower_char (CHR ''0'') = CHR ''0''" "lower_char (CHR ''1'') = CHR ''1''"
  "lower_char (CHR ''2'') = CHR ''2''" "lower_char (CHR ''3'') = CHR ''3''"
  "lower_char (CHR ''4'') = CHR ''4''" "lower_char (CHR ''5'') = CHR ''5''"
  "lower_char (CHR ''6'') = CHR ''6''" "lower_char (CHR ''7'') = CHR ''7''"
  "lower_char (CHR ''8'') = CHR ''8''" "lower_char (CHR ''9'') = CHR ''9''"
  "lower_char (CHR '':'') = CHR '':''" "lower_char (CHR '';'') = CHR '';''"
  "lower_char (CHR ''<'') = CHR ''<''" "lower_char (CHR ''='') = CHR ''=''"
  "lower_char (CHR ''>'') = CHR ''>''" "lower_char (CHR ''?'') = CHR ''?''"
  "lower_char (CHR ''@'') = CHR ''@''" "lower_char (CHR ''A'') = CHR ''a''"
  "lower_char (CHR ''B'') = CHR ''b''" "lower_char (CHR ''C'') = CHR ''c''"
  "lower_char (CHR ''D'') = CHR ''d''" "lower_char (CHR ''E'') = CHR ''e''"
  "lower_char (CHR ''F'') = CHR ''f''" "lower_char (CHR ''G'') = CHR ''g''"
  "lower_char (CHR ''H'') = CHR ''h''" "lower_char (CHR ''I'') = CHR ''i''"
  "lower_char (CHR ''J'') = CHR ''j''" "lower_char (CHR ''K'') = CHR ''k''"
  "lower_char (CHR ''L'') = CHR ''l''" "lower_char (CHR ''M'') = CHR ''m''"
  "lower_char (CHR ''N'') = CHR ''n''" "lower_char (CHR ''O'') = CHR ''o''"
  "lower_char (CHR ''P'') = CHR ''p''" "lower_char (CHR ''Q'') = CHR ''q''"
  "lower_char (CHR ''R'') = CHR ''r''" "lower_char (CHR ''S'') = CHR ''s''"
  "lower_char (CHR ''T'') = CHR ''t''" "lower_char (CHR ''U'') = CHR ''u''"
  "lower_char (CHR ''V'') = CHR ''v''" "lower_char (CHR ''W'') = CHR ''w''"
  "lower_char (CHR ''X'') = CHR ''x''" "lower_char (CHR ''Y'') = CHR ''y''"
  "lower_char (CHR ''Z'') = CHR ''z''" "lower_char (CHR ''['') = CHR ''[''"
  "lower_char (CHR 0x5C) = CHR 0x5C" "lower_char (CHR '']'') = CHR '']''"
  "lower_char (CHR ''^'') = CHR ''^''" "lower_char (CHR ''_'') = CHR ''_''"
  "lower_char (CHR 0x60) = CHR 0x60" "lower_char (CHR ''a'') = CHR ''a''"
  "lower_char (CHR ''b'') = CHR ''b''" "lower_char (CHR ''c'') = CHR ''c''"
  "lower_char (CHR ''d'') = CHR ''d''" "lower_char (CHR ''e'') = CHR ''e''"
  "lower_char (CHR ''f'') = CHR ''f''" "lower_char (CHR ''g'') = CHR ''g''"
  "lower_char (CHR ''h'') = CHR ''h''" "lower_char (CHR ''i'') = CHR ''i''"
  "lower_char (CHR ''j'') = CHR ''j''" "lower_char (CHR ''k'') = CHR ''k''"
  "lower_char (CHR ''l'') = CHR ''l''" "lower_char (CHR ''m'') = CHR ''m''"
  "lower_char (CHR ''n'') = CHR ''n''" "lower_char (CHR ''o'') = CHR ''o''"
  "lower_char (CHR ''p'') = CHR ''p''" "lower_char (CHR ''q'') = CHR ''q''"
  "lower_char (CHR ''r'') = CHR ''r''" "lower_char (CHR ''s'') = CHR ''s''"
  "lower_char (CHR ''t'') = CHR ''t''" "lower_char (CHR ''u'') = CHR ''u''"
  "lower_char (CHR ''v'') = CHR ''v''" "lower_char (CHR ''w'') = CHR ''w''"
  "lower_char (CHR ''x'') = CHR ''x''" "lower_char (CHR ''y'') = CHR ''y''"
  "lower_char (CHR ''z'') = CHR ''z''" "lower_char (CHR ''{'') = CHR ''{''"
  "lower_char (CHR ''|'') = CHR ''|''" "lower_char (CHR ''}'') = CHR ''}''"
  "lower_char (CHR ''~'') = CHR ''~''"
  by (simp_all add: lower_char_def)

lemma upper_char_ascii:
  "upper_char (CHR '' '') = CHR '' ''" "upper_char (CHR ''!'') = CHR ''!''"
  "upper_char (CHR 0x22) = CHR 0x22" "upper_char (CHR ''#'') = CHR ''#''"
  "upper_char (CHR ''$'') = CHR ''$''" "upper_char (CHR ''%'') = CHR ''%''"
  "upper_char (CHR ''&'') = CHR ''&''" "upper_char (CHR 0x27) = CHR 0x27"
  "upper_char (CHR ''('') = CHR ''(''" "upper_char (CHR '')'') = CHR '')''"
  "upper_char (CHR ''*'') = CHR ''*''" "upper_char (CHR ''+'') = CHR ''+''"
  "upper_char (CHR '','') = CHR '',''" "upper_char (CHR ''-'') = CHR ''-''"
  "upper_char (CHR ''.'') = CHR ''.''" "upper_char (CHR ''/'') = CHR ''/''"
  "upper_char (CHR ''0'') = CHR ''0''" "upper_char (CHR ''1'') = CHR ''1''"
  "upper_char (CHR ''2'') = CHR ''2''" "upper_char (CHR ''3'') = CHR ''3''"
  "upper_char (CHR ''4'') = CHR ''4''" "upper_char (CHR ''5'') = CHR ''5''"
  "upper_char (CHR ''6'') = CHR ''6''" "upper_char (CHR ''7'') = CHR ''7''"
  "upper_char (CHR ''8'') = CHR ''8''" "upper_char (CHR ''9'') = CHR ''9''"
  "upper_char (CHR '':'') = CHR '':''" "upper_char (CHR '';'') = CHR '';''"
  "upper_char (CHR ''<'') = CHR ''<''" "upper_char (CHR ''='') = CHR ''=''"
  "upper_char (CHR ''>'') = CHR ''>''" "upper_char (CHR ''?'') = CHR ''?''"
  "upper_char (CHR ''@'') = CHR ''@''" "upper_char (CHR ''A'') = CHR ''A''"
  "upper_char (CHR ''B'') = CHR ''B''" "upper_char (CHR ''C'') = CHR ''C''"
  "upper_char (CHR ''D'') = CHR ''D''" "upper_char (CHR ''E'') = CHR ''E''"
  "upper_char (CHR ''F'') = CHR ''F''" "upper_char (CHR ''G'') = CHR ''G''"
  "upper_char (CHR ''H'') = CHR ''H''" "upper_char (CHR ''I'') = CHR ''I''"
  "upper_char (CHR ''J'') = CHR ''J''" "upper_char (CHR ''K'') = CHR ''K''"
  "upper_char (CHR ''L'') = CHR ''L''" "upper_char (CHR ''M'') = CHR ''M''"
  "upper_char (CHR ''N'') = CHR ''N''" "upper_char (CHR ''O'') = CHR ''O''"
  "upper_char (CHR ''P'') = CHR ''P''" "upper_char (CHR ''Q'') = CHR ''Q''"
  "upper_char (CHR ''R'') = CHR ''R''" "upper_char (CHR ''S'') = CHR ''S''"
  "upper_char (CHR ''T'') = CHR ''T''" "upper_char (CHR ''U'') = CHR ''U''"
  "upper_char (CHR ''V'') = CHR ''V''" "upper_char (CHR ''W'') = CHR ''W''"
  "upper_char (CHR ''X'') = CHR ''X''" "upper_char (CHR ''Y'') = CHR ''Y''"
  "upper_char (CHR ''Z'') = CHR ''Z''" "upper_char (CHR ''['') = CHR ''[''"
  "upper_char (CHR 0x5C) = CHR 0x5C" "upper_char (CHR '']'') = CHR '']''"
  "upper_char (CHR ''^'') = CHR ''^''" "upper_char (CHR ''_'') = CHR ''_''"
  "upper_char (CHR 0x60) = CHR 0x60" "upper_char (CHR ''a'') = CHR ''A''"
  "upper_char (CHR ''b'') = CHR ''B''" "upper_char (CHR ''c'') = CHR ''C''"
  "upper_char (CHR ''d'') = CHR ''D''" "upper_char (CHR ''e'') = CHR ''E''"
  "upper_char (CHR ''f'') = CHR ''F''" "upper_char (CHR ''g'') = CHR ''G''"
  "upper_char (CHR ''h'') = CHR ''H''" "upper_char (CHR ''i'') = CHR ''I''"
  "upper_char (CHR ''j'') = CHR ''J''" "upper_char (CHR ''k'') = CHR ''K''"
  "upper_char (CHR ''l'') = CHR ''L''" "upper_char (CHR ''m'') = CHR ''M''"
  "upper_char (CHR ''n'') = CHR ''N''" "upper_char (CHR ''o'') = CHR ''O''"
  "upper_char (CHR ''p'') = CHR ''P''" "upper_char (CHR ''q'') = CHR ''Q''"
  "upper_char (CHR ''r'') = CHR ''R''" "upper_char (CHR ''s'') = CHR ''S''"
  "upper_char (CHR ''t'') = CHR ''T''" "upper_char (CHR ''u'') = CHR ''U''"
  "upper_char (CHR ''v'') = CHR ''V''" "upper_char (CHR ''w'') = CHR ''W''"
  "upper_char (CHR ''x'') = CHR ''X''" "upper_char (CHR ''y'') = CHR ''Y''"
  "upper_char (CHR ''z'') = CHR ''Z''" "upper_char (CHR ''{'') = CHR ''{''"
  "upper_char (CHR ''|'') = CHR ''|''" "upper_char (CHR ''}'') = CHR ''}''"
  "upper_char (CHR ''~'') = CHR ''~''"
  by (simp_all add: upper_char_def)

section \<open>Facts about dictionaries and the merge\<close>

lemma dict_get_set:
  "dict_get (dict_set d k v) k' = (if k' = k then Some v else dict_get d k')"
  by (induction d) auto

lemma stored_ensure_object:
  "stored (ensure_object k ship_data) obj key = stored ship_data obj key"
  by (auto simp: stored_def ensure_object_def dict_get_set)

lemma update_field_None:
  "dict_get sd obj = None \<Longrightarrow> update_field obj key value (sd, c) = Inl KeyError"
  by (simp add: update_field_def)

lemma update_field_JObj:
  "dict_get sd obj = Some (JObj d) \<Longrightarrow>
   update_field obj key value (sd, c) =
     (if py_ne (dict_get d key) value
      then Inr (dict_set sd obj (JObj (dict_set d key (JInt value))), True)
      else Inr (sd, c))"
  by (simp add: update_field_def)

lemma update_field_other:
  "dict_get sd obj = Some j \<Longrightarrow> (\<forall>d. j \<noteq> JObj d) \<Longrightarrow>
   update_field obj key value (sd, c) = Inl AttributeError"
  by (cases j) (simp_all add: update_field_def)

lemma update_field_Inr:
  assumes "update_field obj key value (sd, c) = Inr st'"
  shows "\<exists>d. dict_get sd obj = Some (JObj d) \<and>
           st' = (if py_ne (dict_get d key) value
                  then (dict_set sd obj (JObj (dict_set d key (JInt value))), True)
                  else (sd, c))"
proof (cases "dict_get sd obj")
  case None
  with assms show ?thesis by (simp add: update_field_None)
next
  case (Some j)
  show ?thesis
  proof (cases "\<exists>d. j = JObj d")
    case True
    then obtain d where "j = JObj d" ..
    with Some assms show ?thesis by (auto simp: update_field_JObj)
  next
    case False
    with Some assms show ?thesis by (simp add: update_field_other)
  qed
qed

lemma update_field_stored:
  assumes "update_field obj key value (sd, c) = Inr st'"
  shows "stored (fst st') obj' key' =
           (if obj' = obj \<and> key' = key \<and> py_ne (stored sd obj key) value
            then Some (JInt value) else stored sd obj' key')"
proof -
  from update_field_Inr [OF assms] obtain d where d: "dict_get sd obj = Some (JObj d)"
    and st': "st' = (if py_ne (dict_get d key) value
                  then (dict_set sd obj (JObj (dict_set d key (JInt value))), True)
                  else (sd, c))" by blast
  show ?thesis
  proof (cases "py_ne (dict_get d key) value")
    case True
    with st' d show ?thesis by (simp add: stored_def dict_get_set)
  next
    case False
    with st' d show ?thesis by (simp add: stored_def)
  qed
qed

lemma update_field_noop:
  assumes "\<not> py_ne (stored sd obj key) value"
  shows "update_field obj key value (sd, c) = Inr (sd, c)"
proof (cases "dict_get sd obj")
  case None
  with assms show ?thesis by (simp add: stored_def)
next
  case (Some j)
  show ?thesis
  proof (cases "\<exists>d. j = JObj d")
    case True
    then obtain d where "j = JObj d" ..
    with Some assms show ?thesis by (simp add: update_field_JObj stored_def)
  next
    case False
    with Some assms show ?thesis by (cases j) (simp_all add: stored_def)
  qed
qed

lemma merge_item_frame:
  assumes "merge_item (k, v) (sd, c) = Inr st'"
  shows "k \<noteq> key \<or> v \<le> 0 \<Longrightarrow> stored (fst st') ''components'' key = stored sd ''components'' key"
    and "k \<noteq> ''thruster_total_hp'' \<or> v \<le> 0 \<Longrightarrow>
           stored (fst st') ''thrusters'' ''total_hp'' = stored sd ''thrusters'' ''total_hp''"
proof -
  show "stored (fst st') ''components'' key = stored sd ''components'' key" if "k \<noteq> key \<or> v \<le> 0"
  proof (cases "v > 0")
    case False with assms show ?thesis by (auto simp: merge_item_def)
  next
    case True
    with that have kk: "k \<noteq> key" by auto
    from True assms obtain st1 where 1: "update_field ''components'' k v (sd, c) = Inr st1"
      and 2: "st' = st1 \<or> update_field ''thrusters'' ''total_hp'' v st1 = Inr st'"
      by (auto simp: merge_item_def split: sum.splits if_splits)
    have a: "stored (fst st1) ''components'' key = stored sd ''components'' key"
      using update_field_stored [OF 1, of "''components''" key] kk by auto
    from 2 show ?thesis
    proof
      assume "st' = st1" with a show ?thesis by simp
    next
      assume "update_field ''thrusters'' ''total_hp'' v st1 = Inr st'"
      then have "update_field ''thrusters'' ''total_hp'' v (fst st1, snd st1) = Inr st'" by simp
      from update_field_stored [OF this, of "''components''" key] a show ?thesis by simp
    qed
  qed
  show "stored (fst st') ''thrusters'' ''total_hp'' = stored sd ''thrusters'' ''total_hp''"
    if "k \<noteq> ''thruster_total_hp'' \<or> v \<le> 0"
  proof (cases "v > 0")
    case False with assms show ?thesis by (auto simp: merge_item_def)
  next
    case True
    with that have kk: "k \<noteq> ''thruster_total_hp''" by auto
    from True assms kk have 1: "update_field ''components'' k v (sd, c) = Inr st'"
      by (auto simp: merge_item_def split: sum.splits if_splits)
    from update_field_stored [OF 1, of "''thrusters''" "''total_hp''"] show ?thesis by simp
  qed
qed


lemma merge_items_frame:
  assumes "merge_items kvs st = Inr st'"
  shows "\<forall>v. (key, v) \<in> set kvs \<longrightarrow> v \<le> 0 \<Longrightarrow>
           stored (fst st') ''components'' key = stored (fst st) ''components'' key"
    and "\<forall>v. (''thruster_total_hp'', v) \<in> set kvs \<longrightarrow> v \<le> 0 \<Longrightarrow>
           stored (fst st') ''thrusters'' ''total_hp'' = stored (fst st) ''thrusters'' ''total_hp''"
  using assms
proof (induction kvs arbitrary: st)
  case Nil
  { case 1 then show ?case by simp }
  { case 2 then show ?case by simp }
next
  case (Cons kv kvs)
  { case 1
    from 1(2) obtain st1 where a: "merge_item kv st = Inr st1" and b: "merge_items kvs st1 = Inr st'"
      by (auto split: sum.splits)
    from a have a': "merge_item (fst kv, snd kv) (fst st, snd st) = Inr st1" by simp
    have "fst kv \<noteq> key \<or> snd kv \<le> 0" using 1(1) by (cases kv) auto
    from merge_item_frame(1) [OF a' this] Cons.IH(1) [OF _ b] 1(1) show ?case by simp }
  { case 2
    from 2(2) obtain st1 where a: "merge_item kv st = Inr st1" and b: "merge_items kvs st1 = Inr st'"
      by (auto split: sum.splits)
    from a have a': "merge_item (fst kv, snd kv) (fst st, snd st) = Inr st1" by simp
    have "fst kv \<noteq> ''thruster_total_hp'' \<or> snd kv \<le> 0" using 2(1) by (cases kv) auto
    from merge_item_frame(2) [OF a' this] Cons.IH(2) [OF _ b] 2(1) show ?case by simp }
qed

lemma merge_item_settles:
  assumes "merge_item kv (sd, c) = Inr st'"
  shows "settled (fst st') kv"
proof (cases "snd kv > 0")
  case False then show ?thesis by (simp add: settled_def)
next
  case True
  obtain k v where kv: "kv = (k, v)" by (cases kv)
  from True assms kv obtain st1 where 1: "update_field ''components'' k v (sd, c) = Inr st1"
    and 2: "if k = ''thruster_total_hp'' then update_field ''thrusters'' ''total_hp'' v st1 = Inr st'
            else st' = st1"
    by (auto simp: merge_item_def split: sum.splits if_splits)
  have a: "\<not> py_ne (stored (fst st1) ''components'' k) v"
    using update_field_stored [OF 1, of "''components''" k] by auto
  show ?thesis
  proof (cases "k = ''thruster_total_hp''")
    case False with 2 a kv show ?thesis by (simp add: settled_def)
  next
    case True
    with 2 have "update_field ''thrusters'' ''total_hp'' v (fst st1, snd st1) = Inr st'" by simp
    from update_field_stored [OF this, of "''thrusters''" "''total_hp''"]
         update_field_stored [OF this, of "''components''" k] a kv
    show ?thesis by (auto simp: settled_def)
  qed
qed

lemma merge_item_noop:
  assumes "settled sd kv"
  shows "merge_item kv (sd, c) = Inr (sd, c)"
  using assms
  by (cases kv) (auto simp: merge_item_def settled_def update_field_noop)

lemma merge_items_noop:
  assumes "\<forall>kv \<in> set kvs. settled sd kv"
  shows "merge_items kvs (sd, c) = Inr (sd, c)"
  using assms by (induction kvs) (auto simp: merge_item_noop)

lemma settled_frame:
  assumes "merge_items kvs st = Inr st'" "settled (fst st) (k, v)" "k \<notin> fst ` set kvs"
  shows "settled (fst st') (k, v)"
proof -
  have 1: "\<forall>w. (k, w) \<in> set kvs \<longrightarrow> w \<le> 0" using assms(3) by force
  have 2: "k = ''thruster_total_hp'' \<Longrightarrow> \<forall>w. (''thruster_total_hp'', w) \<in> set kvs \<longrightarrow> w \<le> 0"
    using assms(3) by force
  from merge_items_frame(1) [OF assms(1) 1] merge_items_frame(2) [OF assms(1) 2] assms(2)
  show ?thesis by (auto simp: settled_def)
qed

lemma merge_items_settles:
  assumes "merge_items kvs st = Inr st'" "distinct (map fst kvs)"
  shows "\<forall>kv \<in> set kvs. settled (fst st') kv"
  using assms
proof (induction kvs arbitrary: st)
  case Nil then show ?case by simp
next
  case (Cons kv kvs)
  from Cons.prems(1) obtain st1 where a: "merge_item kv st = Inr st1" and b: "merge_items kvs st1 = Inr st'"
    by (auto split: sum.splits)
  from a have "merge_item kv (fst st, snd st) = Inr st1" by simp
  from merge_item_settles [OF this] have "settled (fst st1) (fst kv, snd kv)" by simp
  from settled_frame [OF b this] Cons.prems(2) have "settled (fst st') kv" by simp
  moreover from Cons.IH [OF b] Cons.prems(2) have "\<forall>kv \<in> set kvs. settled (fst st') kv" by simp
  ultimately show ?case by simp
qed

lemma merge_items_objects:
  assumes "merge_items kvs st = Inr st'" "dict_get (fst st) obj \<noteq> None"
  shows "dict_get (fst st') obj \<noteq> None"
  using assms
proof (induction kvs arbitrary: st)
  case Nil then show ?case by simp
next
  case (Cons kv kvs)
  from Cons.prems(1) obtain st1 where a: "merge_item kv st = Inr st1" and b: "merge_items kvs st1 = Inr st'"
    by (auto split: sum.splits)
  have u: "dict_get (fst t') obj \<noteq> None"
    if "update_field o' k v t = Inr t'" "dict_get (fst t) obj \<noteq> None" for o' k v t t'
  proof -
    from that(1) have "update_field o' k v (fst t, snd t) = Inr t'" by simp
    from update_field_Inr [OF this] that(2) show ?thesis
      by (auto simp: dict_get_set split: if_splits)
  qed
  have "dict_get (fst st1) obj \<noteq> None"
    using a Cons.prems(2) u
    by (cases kv) (auto simp: merge_item_def split: if_splits sum.splits)
  from Cons.IH [OF b this] show ?case .
qed

lemma ensure_object_id: "dict_get sd k \<noteq> None \<Longrightarrow> ensure_object k sd = sd"
  by (auto simp: ensure_object_def)

lemma merge_twice:
  assumes "distinct (keys hp_totals)" "merge ship_data hp_totals = Inr (ship_data', changed)"
  shows "merge ship_data' hp_totals = Inr (ship_data', False)"
proof -
  let ?sd0 = "ensure_object ''thrusters'' (ensure_object ''components'' ship_data)"
  from assms(2) have m: "merge_items hp_totals (?sd0, False) = Inr (ship_data', changed)"
    by (simp add: merge_def)
  have "dict_get (fst (?sd0, False)) ''components'' \<noteq> None" "dict_get (fst (?sd0, False)) ''thrusters'' \<noteq> None"
    by (auto simp: ensure_object_def dict_get_set)
  from merge_items_objects [OF m this(1)] merge_items_objects [OF m this(2)]
  have "ensure_object ''thrusters'' (ensure_object ''components'' ship_data') = ship_data'"
    by (simp add: ensure_object_id)
  moreover from merge_items_settles [OF m] assms(1)
  have "\<forall>kv \<in> set hp_totals. settled ship_data' kv" by (simp add: keys_def)
  ultimately show ?thesis by (simp add: merge_def merge_items_noop)
qed


lemma keys_dict_add: "keys (dict_add hp k n) = keys hp"
  by (induction hp) (auto simp: dict_add_def keys_def)

lemma keys_hp_step: "keys (hp_step c g e hp) = keys hp"
  by (auto simp: hp_step_def Let_def keys_dict_add split: option.splits)

lemma keys_fold_hp_step: "keys (fold (hp_step c g) es hp) = keys hp"
  by (induction es arbitrary: hp) (auto simp: keys_hp_step)

lemma keys_extract:
  "keys (extract_component_hp_from_ship xml c g) = keys empty_totals"
  by (cases xml) (simp_all add: extract_component_hp_from_ship_def keys_fold_hp_step)

lemma distinct_keys_extract:
  "distinct (keys (extract_component_hp_from_ship xml c g))"
  unfolding keys_extract by (simp add: empty_totals_def keys_def)

text \<open>
  Claim C1. A category whose aggregate total is zero, or that the aggregate does not
  mention, is left alone by the merge: whenever the merge of \<open>hp_totals\<close> into a record
  succeeds and every entry of \<open>hp_totals\<close> for \<open>key\<close> is 0, the value stored under
  \<open>components[key]\<close> after the merge is the value stored before it, whatever that value
  was (a non-zero number included).
\<close>

theorem merge_keeps_zero_categories:
  assumes "merge ship_data hp_totals = Inr (ship_data', changed)"
    and "\<forall>v. (key, v) \<in> set hp_totals \<longrightarrow> v = 0"
  shows "stored ship_data' ''components'' key = stored ship_data ''components'' key"
proof -
  let ?sd0 = "ensure_object ''thrusters'' (ensure_object ''components'' ship_data)"
  from assms(1) have m: "merge_items hp_totals (?sd0, False) = Inr (ship_data', changed)"
    by (simp add: merge_def)
  from assms(2) have "\<forall>v. (key, v) \<in> set hp_totals \<longrightarrow> v \<le> 0" by auto
  from merge_items_frame(1) [OF m this] show ?thesis
    by (simp add: stored_ensure_object)
qed

lemma gladius_merge: "merge gladius gladius_totals = Inr (gladius_merged, True)"
  by (simp add: merge_def gladius_def gladius_totals_def gladius_merged_def ensure_object_def
        merge_item_def update_field_def)

theorem merge_keeps_zero_categories_witness:
  "merge gladius gladius_totals = Inr (gladius_merged, True) \<and>
   dict_get gladius_totals ''cooler_total_hp'' = Some 0 \<and>
   stored gladius_merged ''components'' ''cooler_total_hp'' = Some (JInt 700) \<and>
   stored gladius ''components'' ''cooler_total_hp'' = Some (JInt 700)"
proof -
  have h: "\<forall>v. (''cooler_total_hp'', v) \<in> set gladius_totals \<longrightarrow> v = 0"
    by (simp add: gladius_totals_def)
  have s: "stored gladius ''components'' ''cooler_total_hp'' = Some (JInt 700)"
    by (simp add: stored_def gladius_def)
  have z: "dict_get gladius_totals ''cooler_total_hp'' = Some 0"
    by (simp add: gladius_totals_def)
  from merge_keeps_zero_categories [OF gladius_merge h] s gladius_merge z show ?thesis by simp
qed

text \<open>
  Claim C2. Merging is idempotent: when the merge of an aggregate into a record
  succeeds, merging the same aggregate into the resulting record changes nothing and
  reports \<open>changed = False\<close>, so the second run does not write the file (it reports
  no changes, or skips the ship when the totals sum to zero). The keys of the aggregate
  are distinct, as the keys of a dictionary are.
\<close>

theorem merge_idempotent:
  assumes "distinct (keys hp_totals)"
    and "merge ship_data hp_totals = Inr (ship_data', changed)"
  shows "merge ship_data' hp_totals = Inr (ship_data', False) \<and>
         update_ship_json ship_data' hp_totals \<in> {Skipped, NoChanges}"
  using merge_twice [OF assms] by (simp add: update_ship_json_def)

theorem merge_idempotent_witness:
  "distinct (keys gladius_totals) \<and>
   merge gladius gladius_totals = Inr (gladius_merged, True) \<and>
   merge gladius_merged gladius_totals = Inr (gladius_merged, False) \<and>
   update_ship_json gladius_merged gladius_totals = NoChanges"
proof -
  have d: "distinct (keys gladius_totals)" by (simp add: keys_def gladius_totals_def)
  have "sum_list (map snd gladius_totals) \<noteq> 0" by (simp add: gladius_totals_def)
  with merge_idempotent [OF d gladius_merge] d gladius_merge show ?thesis
    by (simp add: update_ship_json_def)
qed

text \<open>
  The same for two runs of the script on one ship with unchanged inputs: whatever the
  first run left on disk, the second run does not write.
\<close>

lemma second_run_writes_nothing:
  "update_ship_json (on_disk ship_data (update_ship_json ship_data
       (extract_component_hp_from_ship xml c g))) (extract_component_hp_from_ship xml c g) \<noteq> Written w"
proof -
  let ?hp = "extract_component_hp_from_ship xml c g"
  show ?thesis
  proof (cases "sum_list (map snd ?hp) = 0")
    case True then show ?thesis by (simp add: update_ship_json_def)
  next
    case z: False
    show ?thesis
    proof (cases "merge ship_data ?hp")
      case (Inl e)
      with z have "on_disk ship_data (update_ship_json ship_data ?hp) = ship_data"
        by (simp add: update_ship_json_def on_disk_def)
      with Inl z show ?thesis by (simp add: update_ship_json_def)
    next
      case (Inr r)
      obtain sd' ch where r: "r = (sd', ch)" by (cases r)
      show ?thesis
      proof (cases ch)
        case True
        with Inr r z have "on_disk ship_data (update_ship_json ship_data ?hp) = sd'"
          by (simp add: update_ship_json_def on_disk_def)
        moreover from merge_twice [OF distinct_keys_extract] Inr r
        have "merge sd' ?hp = Inr (sd', False)" by simp
        ultimately show ?thesis by (simp add: update_ship_json_def)
      next
        case False
        with Inr r z have "on_disk ship_data (update_ship_json ship_data ?hp) = ship_data"
          by (simp add: update_ship_json_def on_disk_def)
        with Inr r z False show ?thesis by (simp add: update_ship_json_def)
      qed
    qed
  qed
qed

section \<open>More facts about dictionaries\<close>

lemma keys_dict_set:
  "keys (dict_set d k v) = (if k \<in> set (keys d) then keys d else keys d @ [k])"
proof (induction d)
  case Nil
  then show ?case by (simp add: keys_def)
next
  case (Cons kv d)
  obtain k' v' where kv: "kv = (k', v')" by (cases kv)
  show ?case
  proof (cases "k' = k")
    case True
    with kv show ?thesis by (simp add: keys_def)
  next
    case False
    with kv Cons.IH show ?thesis by (simp add: keys_def)
  qed
qed

lemma distinct_keys_dict_set: "distinct (keys d) \<Longrightarrow> distinct (keys (dict_set d k v))"
  by (simp add: keys_dict_set)

lemma dict_get_distinct:
  "distinct (keys d) \<Longrightarrow> (k, v) \<in> set d \<Longrightarrow> dict_get d k = Some v"
  by (induction d) (auto simp: keys_def rev_image_eqI)

lemma first_seen_snoc:
  "first_seen (xs @ [x]) = (if x \<in> set xs then first_seen xs else first_seen xs @ [x])"
  by (simp add: first_seen_def)

lemma set_first_seen: "set (first_seen xs) = set xs"
  by (simp add: first_seen_def)

lemma fold_dict_set_keys:
  "keys (fold (\<lambda>(k, v) d. dict_set d k v) kvs []) = first_seen (map fst kvs)"
proof (induction kvs rule: rev_induct)
  case Nil
  show ?case by (simp add: keys_def first_seen_def)
next
  case (snoc kv kvs)
  obtain k v where kv: "kv = (k, v)" by (cases kv)
  have "set (keys (fold (\<lambda>(k, v) d. dict_set d k v) kvs [])) = fst ` set kvs"
    by (simp add: snoc.IH set_first_seen)
  with kv snoc.IH show ?case
    by (simp add: keys_dict_set first_seen_snoc)
qed

lemma fold_dict_set_get:
  "dict_get (fold (\<lambda>(k, v) d. dict_set d k v) kvs []) k = map_of (rev kvs) k"
proof (induction kvs rule: rev_induct)
  case Nil
  show ?case by simp
next
  case (snoc kv kvs)
  obtain k' v where kv: "kv = (k', v)" by (cases kv)
  with snoc.IH show ?case by (simp add: dict_get_set)
qed

section \<open>Facts about the catalogs\<close>

lemma build_step_other_key:
  assumes "component_key f \<noteq> k"
  shows "dict_get (fst (build_step f st)) k = dict_get (fst st) k"
  using assms
  by (cases st)
     (auto simp: build_step_def component_key_def Let_def dict_get_set
           split: xml_summary.splits health_attr.splits)

lemma fold_build_step_other_keys:
  assumes "\<forall>g \<in> set fs. component_key g \<noteq> k"
  shows "dict_get (fst (fold build_step fs st)) k = dict_get (fst st) k"
  using assms by (induction fs arbitrary: st) (simp_all add: build_step_other_key)

lemma build_step_stores:
  assumes "endswith (file_name f) ''.xml''" "parsed f = Parsed guid (Health hp)"
  shows "dict_get (fst (build_step f st)) (component_key f) = Some hp"
  using assms
  by (cases st) (simp add: build_step_def component_key_def Let_def dict_get_set)

lemma fold_build_last:
  assumes "endswith (file_name f) ''.xml''" "parsed f = Parsed guid (Health hp)"
    and "\<forall>g \<in> set later. component_key g \<noteq> component_key f"
  shows "dict_get (fst (fold build_step (earlier @ f # later) st)) (component_key f) = Some hp"
  using assms by (simp add: fold_build_step_other_keys build_step_stores)

lemma load_armor_step_other_key:
  assumes "k \<notin> set (armor_keys f)"
  shows "dict_get (load_armor_step f d) k = dict_get d k"
  using assms
  by (auto simp: load_armor_step_def armor_keys_def Let_def dict_get_set split: option.splits)

lemma fold_armor_other_keys:
  assumes "\<forall>g \<in> set fs. k \<notin> set (armor_keys g)"
  shows "dict_get (fold load_armor_step fs d) k = dict_get d k"
  using assms by (induction fs arbitrary: d) (simp_all add: load_armor_step_other_key)

lemma load_armor_step_stores:
  assumes "armor_values f = Some a"
  shows "dict_get (load_armor_step f d) (lower (stem f)) = Some a"
  using assms by (simp add: load_armor_step_def Let_def dict_get_set)

lemma fold_armor_last:
  assumes "armor_values f = Some a"
    and "\<forall>g \<in> set later. lower (stem f) \<notin> set (armor_keys g)"
  shows "dict_get (fold load_armor_step (earlier @ f # later) d) (lower (stem f)) = Some a"
  using assms by (simp add: fold_armor_other_keys load_armor_step_stores)

lemma powr_lookup:
  "fst (build_component_hp_lookup [Some [powr_first, powr_second]]) = [(''powr_aegs_s01'', 250)]"
  by (simp add: build_component_hp_lookup_def walk_files_def build_step_def powr_first_def
        powr_second_def endswith_def suffix_to_prefix lower_def lower_char_ascii null_guid_def)

lemma powr_keys:
  "component_key powr_first = ''powr_aegs_s01''" "component_key powr_second = ''powr_aegs_s01''"
  by (simp_all add: component_key_def powr_first_def powr_second_def lower_def lower_char_ascii)

lemma armr_lookup:
  "load_armor_data (Some [armr_first, armr_second]) =
     [(''armr_aegs_gladius'', plain_armor 1200), (''aegs_gladius'', plain_armor 1200)]"
  by (simp add: load_armor_data_def load_armor_step_def armr_first_def armr_second_def
        lower_def lower_char_ascii)

lemma build_step_record:
  "fst (build_step f (c, g)) = (case hp_record f of None \<Rightarrow> c | Some (k, v) \<Rightarrow> dict_set c k v)"
  by (simp add: build_step_def hp_record_def component_key_def Let_def
           split: xml_summary.splits health_attr.splits)

lemma fold_build_step_records:
  "fst (fold build_step fs (c, g)) = fold (\<lambda>(k, v) d. dict_set d k v) (hp_records fs) c"
proof (induction fs arbitrary: c g)
  case Nil
  show ?case by (simp add: hp_records_def map_filter_simps)
next
  case (Cons f fs)
  obtain c' g' where st: "build_step f (c, g) = (c', g')" by (cases "build_step f (c, g)")
  from build_step_record [of f c g] st
  have c': "c' = (case hp_record f of None \<Rightarrow> c | Some (k, v) \<Rightarrow> dict_set c k v)" by simp
  show ?case
    using Cons.IH [of c' g'] st c'
    by (simp add: hp_records_def map_filter_simps split: option.splits)
qed

lemma load_armor_step_records:
  "load_armor_step f d = fold (\<lambda>(k, v) d. dict_set d k v) (armor_records [f]) d"
  by (simp add: load_armor_step_def armor_records_def armor_keys_def Let_def split: option.splits)

lemma armor_records_Cons: "armor_records (f # fs) = armor_records [f] @ armor_records fs"
  by (simp add: armor_records_def)

lemma fold_armor_records:
  "fold load_armor_step fs d = fold (\<lambda>(k, v) d. dict_set d k v) (armor_records fs) d"
proof (induction fs arbitrary: d)
  case Nil
  show ?case by (simp add: armor_records_def)
next
  case (Cons f fs)
  show ?case
    by (subst armor_records_Cons) (simp add: Cons.IH load_armor_step_records)
qed

lemma fold_armor_last_key:
  assumes "armor_values f = Some a" "k \<in> set (armor_keys f)"
    and "\<forall>g \<in> set later. k \<notin> set (armor_keys g)"
  shows "dict_get (fold load_armor_step (earlier @ f # later) d) k = Some a"
proof -
  from assms(1,2) have "dict_get (load_armor_step f d') k = Some a" for d'
    by (auto simp: load_armor_step_def armor_keys_def Let_def dict_get_set)
  with assms(3) show ?thesis by (simp add: fold_armor_other_keys)
qed


lemma powr_cool_lookup:
  "fst (build_component_hp_lookup [Some [powr_first, cool_between, powr_second]]) =
     [(''powr_aegs_s01'', 250), (''cool_aegs_s01'', 80)]"
  by (simp add: build_component_hp_lookup_def walk_files_def build_step_def powr_first_def
        cool_between_def powr_second_def endswith_def suffix_to_prefix lower_def lower_char_ascii
        null_guid_def)

text \<open>
  Claim C3, as the code has it. Both catalog builders store with a plain dictionary
  assignment, so of several files with one key the last one in traversal order is the
  one the catalog holds: a file that carries a health value and is followed by no file
  with its key is found under its key with its own value, whatever files precede it,
  and an armor file is found under each of its two keys that no later file stores. In
  full, each catalog reads, under every key, the record of the last file that stores
  that key, and its keys stand in the order in which they are first stored: a later
  file replaces the record and leaves the key where it is.
\<close>

theorem catalog_last_record_wins:
  "(walk_files dirs = earlier @ f # later \<and> endswith (file_name f) ''.xml'' \<and>
    parsed f = Parsed guid (Health hp) \<and>
    (\<forall>g \<in> set later. component_key g \<noteq> component_key f)
    \<longrightarrow> dict_get (fst (build_component_hp_lookup dirs)) (component_key f) = Some hp) \<and>
   (armor_values af = Some a \<and> ka \<in> set (armor_keys af) \<and>
    (\<forall>g \<in> set alater. ka \<notin> set (armor_keys g))
    \<longrightarrow> dict_get (load_armor_data (Some (aearlier @ af # alater))) ka = Some a) \<and>
   keys (fst (build_component_hp_lookup dirs)) = first_seen (map fst (hp_records (walk_files dirs))) \<and>
   dict_get (fst (build_component_hp_lookup dirs)) k = map_of (rev (hp_records (walk_files dirs))) k \<and>
   keys (load_armor_data (Some fs)) = first_seen (map fst (armor_records fs)) \<and>
   dict_get (load_armor_data (Some fs)) k' = map_of (rev (armor_records fs)) k'"
proof (intro conjI impI)
  assume "walk_files dirs = earlier @ f # later \<and> endswith (file_name f) ''.xml'' \<and>
    parsed f = Parsed guid (Health hp) \<and>
    (\<forall>g \<in> set later. component_key g \<noteq> component_key f)"
  then show "dict_get (fst (build_component_hp_lookup dirs)) (component_key f) = Some hp"
    unfolding build_component_hp_lookup_def using fold_build_last [of f guid hp later earlier]
    by simp
next
  assume "armor_values af = Some a \<and> ka \<in> set (armor_keys af) \<and>
    (\<forall>g \<in> set alater. ka \<notin> set (armor_keys g))"
  then show "dict_get (load_armor_data (Some (aearlier @ af # alater))) ka = Some a"
    unfolding load_armor_data_def using fold_armor_last_key [of af a ka alater aearlier]
    by simp
next
  show "keys (fst (build_component_hp_lookup dirs)) =
          first_seen (map fst (hp_records (walk_files dirs)))"
    by (simp only: build_component_hp_lookup_def fold_build_step_records fold_dict_set_keys)
  show "dict_get (fst (build_component_hp_lookup dirs)) k =
          map_of (rev (hp_records (walk_files dirs))) k"
    by (simp only: build_component_hp_lookup_def fold_build_step_records fold_dict_set_get)
  show "keys (load_armor_data (Some fs)) = first_seen (map fst (armor_records fs))"
    by (simp add: load_armor_data_def fold_armor_records fold_dict_set_keys)
  show "dict_get (load_armor_data (Some fs)) k' = map_of (rev (armor_records fs)) k'"
    by (simp add: load_armor_data_def fold_armor_records fold_dict_set_get)
qed

theorem catalog_last_record_wins_witness:
  "fst (build_component_hp_lookup [Some [powr_first, cool_between, powr_second]]) =
     [(''powr_aegs_s01'', 250), (''cool_aegs_s01'', 80)] \<and>
   dict_get (fst (build_component_hp_lookup [Some [powr_first, cool_between, powr_second]]))
     (component_key powr_second) = Some 250 \<and>
   load_armor_data (Some [armr_first, armr_second]) =
     [(''armr_aegs_gladius'', plain_armor 1200), (''aegs_gladius'', plain_armor 1200)] \<and>
   dict_get (load_armor_data (Some [armr_first, armr_second])) ''aegs_gladius''
     = Some (plain_armor 1200)"
proof -
  have 1: "walk_files [Some [powr_first, cool_between, powr_second]] =
             [powr_first, cool_between] @ powr_second # []"
    by (simp add: walk_files_def)
  have 2: "endswith (file_name powr_second) ''.xml''"
    by (simp add: powr_second_def endswith_def suffix_to_prefix)
  have 3: "parsed powr_second = Parsed [] (Health 250)"
    by (simp add: powr_second_def)
  have 4: "armor_values armr_second = Some (plain_armor 1200)"
    by (simp add: armr_second_def)
  have 5: "''aegs_gladius'' \<in> set (armor_keys armr_second)"
    by (simp add: armor_keys_def armr_second_def lower_def lower_char_ascii)
  note T = catalog_last_record_wins
         [where dirs = "[Some [powr_first, cool_between, powr_second]]"
            and earlier = "[powr_first, cool_between]" and f = powr_second and later = "[]"
            and guid = "[]" and hp = 250 and af = armr_second and a = "plain_armor 1200"
            and ka = "''aegs_gladius''" and alater = "[]" and aearlier = "[armr_first]"]
  from T [THEN conjunct1] 1 2 3 have a: "dict_get (fst (build_component_hp_lookup
      [Some [powr_first, cool_between, powr_second]])) (component_key powr_second) = Some 250"
    by simp
  from T [THEN conjunct2, THEN conjunct1] 4 5 have b: "dict_get (load_armor_data (Some [armr_first, armr_second])) ''aegs_gladius''
     = Some (plain_armor 1200)"
    by simp
  from a b powr_cool_lookup armr_lookup show ?thesis by (intro conjI)
qed

text \<open>
  Claim C3 as stated fails: two power plant files whose names differ only in case
  share a key, and the catalog holds the health of the second one (250), not that of
  the first (100). The same happens in \<open>load_armor_data\<close>.
\<close>

theorem catalog_first_record_counterexample:
  "component_key powr_first = component_key powr_second \<and>
   parsed powr_first = Parsed [] (Health 100) \<and>
   dict_get (fst (build_component_hp_lookup [Some [powr_first, powr_second]]))
     (component_key powr_first) = Some 250 \<and>
   lower (stem armr_first) = lower (stem armr_second) \<and>
   armor_values armr_first = Some (plain_armor 900) \<and>
   dict_get (load_armor_data (Some [armr_first, armr_second])) (lower (stem armr_first))
     = Some (plain_armor 1200)"
proof -
  have "lower (stem armr_first) = ''armr_aegs_gladius''" "lower (stem armr_second) = ''armr_aegs_gladius''"
    by (simp_all add: armr_first_def armr_second_def lower_def lower_char_ascii)
  then show ?thesis
    by (simp add: powr_keys powr_lookup armr_lookup) (simp add: powr_first_def armr_first_def)
qed

section \<open>Facts about the classifier\<close>

lemma classify_first_match: "classify p e = first_match rule_table p e"
  by (simp add: classify_def rule_table_def)

lemma fold_categorize:
  "fold (\<lambda>(port_name, entity_class) categories.
             categories(classify port_name entity_class :=
               categories (classify port_name entity_class) @ [(port_name, entity_class)]))
          ms cats c = cats c @ filter (\<lambda>(p, e). classify p e = c) ms"
  by (induction ms arbitrary: cats) (auto split: prod.splits)

lemma categorize_filter:
  "categorize_hardpoints ms c = filter (\<lambda>(p, e). classify p e = c) ms"
  by (simp add: categorize_hardpoints_def fold_categorize)

text \<open>
  Claim C4, as the code has it. \<open>classify\<close> returns the category of the first matching
  rule in the order thruster, turret, armor, powerplant, cooler, shield, quantum drive,
  weapon, missile, else other, and \<open>categorize_hardpoints\<close> puts every item in the list
  of that category. Only the thruster and turret rules test both the port name and the
  entity id for their keyword; the armor rule tests the port name for \<open>armor\<close> and the
  entity id for \<open>armr_\<close>; the remaining rules test the port name only.
\<close>

theorem classify_ordered_rules:
  "classify p e = first_match rule_table p e \<and>
   categorize_hardpoints ms c = filter (\<lambda>(p, e). first_match rule_table p e = c) ms"
  by (simp add: categorize_filter classify_first_match)

theorem classify_ordered_rules_witness:
  "classify ''hardpoint_turret_weapon'' ''behr_gun'' = Turrets \<and>
   first_match rule_table ''hardpoint_turret_weapon'' ''behr_gun'' = Turrets \<and>
   categorize_hardpoints [(''hardpoint_turret_weapon'', ''behr_gun'')] Weapons = []"
  using classify_ordered_rules
          [of "''hardpoint_turret_weapon''" "''behr_gun''"
              "[(''hardpoint_turret_weapon'', ''behr_gun'')]" Weapons]
  by (simp add: rule_table_def)

text \<open>
  Claim C4 as stated fails: the entity id below contains the power keyword and the
  port name does not, and the pair is classified \<open>Other\<close>, not \<open>Powerplant\<close>.
\<close>

theorem classify_entity_keyword_counterexample:
  "contains ''power'' powerplant_entity \<and> \<not> contains ''power'' generator_port \<and>
   classify generator_port powerplant_entity = Other"
  by (simp add: classify_def generator_port_def powerplant_entity_def)

section \<open>Facts about resolution\<close>

lemma scan_thrusters_find:
  "scan_thrusters td e =
     (case find (\<lambda>(k, t). contains e k \<or> contains k e) td of
        Some (k, t) \<Rightarrow> health t
      | None \<Rightarrow> 0)"
proof (induction td)
  case Nil
  show ?case by simp
next
  case (Cons kt td)
  obtain k t where kt: "kt = (k, t)" by (cases kt)
  show ?case
  proof (cases "contains e k \<or> contains k e")
    case True
    with kt show ?thesis by simp
  next
    case False
    with kt Cons.IH show ?thesis by simp
  qed
qed

lemma armor_by_ship_name_find:
  "armor_by_ship_name ad ship_file =
     (case find (\<lambda>(k, a). contains (remove_all ''_'' (lower ship_file)) (remove_all ''_'' k) \<or>
                           contains (remove_all ''_'' k) (remove_all ''_'' (lower ship_file))) ad of
        Some (k, a) \<Rightarrow> Some a
      | None \<Rightarrow> None)"
proof (induction ad)
  case Nil
  show ?case by simp
next
  case (Cons ka ad)
  obtain k a where ka: "ka = (k, a)" by (cases ka)
  show ?case
  proof (cases "contains (remove_all ''_'' (lower ship_file)) (remove_all ''_'' k) \<or>
                contains (remove_all ''_'' k) (remove_all ''_'' (lower ship_file))")
    case True
    with ka show ?thesis by (simp add: Let_def)
  next
    case False
    with ka Cons.IH show ?thesis by (simp add: Let_def)
  qed
qed

text \<open>
  Claim C5, as the code has it. The exact lookup comes first. For a thruster, when the
  lower-cased entity id is a key of the catalog its health is taken and the keys are
  not scanned; otherwise the first key in catalog order such that the id contains the
  key or the key contains the id decides, the two compared as they are, no separator
  removed. For armor, the row of the first armor entry found in the catalog is kept when
  its health is not 0; when it is 0 or no entry is found, the first key in catalog order
  decides such that the ship's file name contains the key or the key contains the file
  name, both lower-cased with their underscores removed.
\<close>

theorem resolve_exact_then_approximate:
  "(dict_get td e = Some t \<longrightarrow> thruster_hp td e = health t) \<and>
   (dict_get td e = None \<longrightarrow>
      thruster_hp td e =
        (case find (\<lambda>(k, t). contains e k \<or> contains k e) td of
           Some (k, t) \<Rightarrow> health t
         | None \<Rightarrow> 0)) \<and>
   (armor_direct ad es = Some a \<and> health a \<noteq> 0 \<longrightarrow> ship_armor ad ship_file es = armor_row_of a) \<and>
   (armor_direct ad es = None \<or> (\<exists>a. armor_direct ad es = Some a \<and> health a = 0) \<longrightarrow>
      ship_armor ad ship_file es =
        (case find (\<lambda>(k, a). contains (remove_all ''_'' (lower ship_file)) (remove_all ''_'' k) \<or>
                              contains (remove_all ''_'' k) (remove_all ''_'' (lower ship_file))) ad of
           Some (k, a) \<Rightarrow> armor_row_of a
         | None \<Rightarrow> (case armor_direct ad es of Some a \<Rightarrow> armor_row_of a | None \<Rightarrow> (0, 1, 1, 1))))"
proof (intro conjI impI)
  assume "dict_get td e = Some t"
  then show "thruster_hp td e = health t" by (simp add: thruster_hp_def)
next
  assume "dict_get td e = None"
  then show "thruster_hp td e =
        (case find (\<lambda>(k, t). contains e k \<or> contains k e) td of
           Some (k, t) \<Rightarrow> health t
         | None \<Rightarrow> 0)"
    by (simp add: thruster_hp_def scan_thrusters_find)
next
  assume "armor_direct ad es = Some a \<and> health a \<noteq> 0"
  then show "ship_armor ad ship_file es = armor_row_of a"
    by (simp add: ship_armor_def armor_row_of_def)
next
  assume "armor_direct ad es = None \<or> (\<exists>a. armor_direct ad es = Some a \<and> health a = 0)"
  then have "fst (case armor_direct ad es of Some a \<Rightarrow> armor_row_of a | None \<Rightarrow> (0, 1, 1, 1)) = 0"
    by (auto simp: armor_row_of_def)
  then show "ship_armor ad ship_file es =
        (case find (\<lambda>(k, a). contains (remove_all ''_'' (lower ship_file)) (remove_all ''_'' k) \<or>
                              contains (remove_all ''_'' k) (remove_all ''_'' (lower ship_file))) ad of
           Some (k, a) \<Rightarrow> armor_row_of a
         | None \<Rightarrow> (case armor_direct ad es of Some a \<Rightarrow> armor_row_of a | None \<Rightarrow> (0, 1, 1, 1)))"
    unfolding ship_armor_def Let_def armor_by_ship_name_find
    by (simp split: option.splits prod.splits)
qed

theorem resolve_exact_then_approximate_witness:
  "dict_get main_thrusters ''thr_main'' = Some \<lparr>health = 450, filename = ''thr_main''\<rparr> \<and>
   thruster_hp main_thrusters ''thr_main'' = 450 \<and>
   dict_get main_thrusters ''thr_main_s3'' = None \<and>
   thruster_hp main_thrusters ''thr_main_s3'' = 450 \<and>
   armor_direct gladius_armor [(''hardpoint_armor'', ''aegs_gladius'')] = Some (plain_armor 900) \<and>
   ship_armor gladius_armor ''AEGS_Gladius'' [(''hardpoint_armor'', ''aegs_gladius'')] = (900, 1, 1, 1) \<and>
   armor_direct gladius_armor [] = None \<and>
   ship_armor gladius_armor ''AEGS_Gladius'' [] = (900, 1, 1, 1)"
proof -
  have 1: "dict_get main_thrusters ''thr_main'' = Some \<lparr>health = 450, filename = ''thr_main''\<rparr>"
    by (simp add: main_thrusters_def)
  have 2: "dict_get main_thrusters ''thr_main_s3'' = None"
    by (simp add: main_thrusters_def)
  have 3: "armor_direct gladius_armor [(''hardpoint_armor'', ''aegs_gladius'')] = Some (plain_armor 900)"
    by (simp add: gladius_armor_def lower_def lower_char_ascii)
  have 4: "health (plain_armor 900) \<noteq> 0" by (simp add: plain_armor_def)
  have 5: "armor_direct gladius_armor [] = None" by simp
  have 6: "find (\<lambda>(k, t). contains ''thr_main_s3'' k \<or> contains k ''thr_main_s3'') main_thrusters
             = Some (''thr_main'', \<lparr>health = 450, filename = ''thr_main''\<rparr>)"
    by (simp add: main_thrusters_def)
  have 7: "find (\<lambda>(k, a). contains (remove_all ''_'' (lower ''AEGS_Gladius'')) (remove_all ''_'' k) \<or>
                 contains (remove_all ''_'' k) (remove_all ''_'' (lower ''AEGS_Gladius''))) gladius_armor
             = Some (''aegs_gladius'', plain_armor 900)"
    by (simp add: gladius_armor_def lower_def lower_char_ascii)
  have 8: "armor_row_of (plain_armor 900) = (900, 1, 1, 1)"
    by (simp add: armor_row_of_def plain_armor_def)
  from resolve_exact_then_approximate
         [of main_thrusters "''thr_main''" "\<lparr>health = 450, filename = ''thr_main''\<rparr>"
             gladius_armor "[(''hardpoint_armor'', ''aegs_gladius'')]" "plain_armor 900" "''AEGS_Gladius''"]
       resolve_exact_then_approximate
         [of main_thrusters "''thr_main_s3''" "\<lparr>health = 450, filename = ''thr_main''\<rparr>"
             gladius_armor "[]" "plain_armor 900" "''AEGS_Gladius''"]
       1 2 3 4 5 6 7 8
  show ?thesis by simp
qed

text \<open>
  Claim C5 as stated fails twice. The thruster scan removes no separator: \<open>thrmain\<close> and
  the key \<open>thr_main\<close> agree once underscores are removed, yet the entity is left
  unresolved (health 0). And for armor the approximate step is consulted after an exact
  lookup that succeeded, when the armor found has health 0: the row comes from the key
  matching the ship's name.
\<close>

theorem resolve_normalized_counterexample:
  "contains (remove_all ''_'' ''thrmain'') (remove_all ''_'' ''thr_main'') \<and>
   dict_get main_thrusters ''thrmain'' = None \<and>
   thruster_hp main_thrusters ''thrmain'' = 0 \<and>
   dict_get gladius_armor (lower ''armr_none'') = Some (plain_armor 0) \<and>
   ship_armor gladius_armor ''AEGS_Gladius'' [(''hardpoint_armor'', ''armr_none'')] = (900, 1, 1, 1)"
  by (simp add: main_thrusters_def thruster_hp_def gladius_armor_def ship_armor_def
        armor_row_of_def plain_armor_def lower_def lower_char_ascii)

section \<open>Facts about the totals\<close>

lemma thruster_step_count:
  "thruster_count (thruster_step td (p, e) t) =
     thruster_count t + (if thruster_hp td (lower e) > 0 then 1 else 0)"
  by (simp add: thruster_step_def Let_def)

lemma thruster_step_total:
  "thruster_total_hp (thruster_step td (p, e) t) =
     thruster_total_hp t + (if thruster_hp td (lower e) > 0 then thruster_hp td (lower e) else 0)"
  by (simp add: thruster_step_def Let_def thruster_total_hp_def)

lemma fold_thruster_count:
  "thruster_count (fold (thruster_step td) es t) =
     thruster_count t + int (length (filter (\<lambda>(p, e). thruster_hp td (lower e) > 0) es))"
  by (induction es arbitrary: t) (auto simp: thruster_step_count)

lemma fold_thruster_total:
  "thruster_total_hp (fold (thruster_step td) es t) =
     thruster_total_hp t +
     sum_list (map (\<lambda>(p, e). thruster_hp td (lower e))
                 (filter (\<lambda>(p, e). thruster_hp td (lower e) > 0) es))"
  by (induction es arbitrary: t) (auto simp: thruster_step_total)

lemma fold_component_step:
  "fold (component_step c) es (tot, n) =
     (tot + sum_list (map (\<lambda>(p, e). component_hp c (lower e))
                         (filter (\<lambda>(p, e). component_hp c (lower e) > 0) es)),
      n + int (length (filter (\<lambda>(p, e). component_hp c (lower e) > 0) es)))"
  by (induction es arbitrary: tot n) (auto simp: component_step_def Let_def)

text \<open>
  Claim C8, as the code has it. For thrusters and for power plants, coolers, shields
  and quantum drives an entry is counted only when its resolved health is strictly
  positive: the count is the number of entries with positive health and the total is
  the sum of their healths. An entry that resolves to health 0 changes neither.
\<close>

theorem zero_health_not_counted:
  "thruster_count (ship_thrusters td es) =
     int (length (filter (\<lambda>(p, e). thruster_hp td (lower e) > 0) es)) \<and>
   thruster_total_hp (ship_thrusters td es) =
     sum_list (map (\<lambda>(p, e). thruster_hp td (lower e))
                 (filter (\<lambda>(p, e). thruster_hp td (lower e) > 0) es)) \<and>
   ship_components c es =
     (sum_list (map (\<lambda>(p, e). component_hp c (lower e))
                  (filter (\<lambda>(p, e). component_hp c (lower e) > 0) es)),
      int (length (filter (\<lambda>(p, e). component_hp c (lower e) > 0) es)))"
proof (intro conjI)
  show "thruster_count (ship_thrusters td es) =
     int (length (filter (\<lambda>(p, e). thruster_hp td (lower e) > 0) es))"
    by (simp add: ship_thrusters_def fold_thruster_count)
  have "thruster_total_hp \<lparr>thruster_count = 0, thruster_main_hp = 0, thruster_retro_hp = 0,
          thruster_mav_hp = 0, thruster_vtol_hp = 0\<rparr> = 0"
    by (simp add: thruster_total_hp_def)
  then show "thruster_total_hp (ship_thrusters td es) =
     sum_list (map (\<lambda>(p, e). thruster_hp td (lower e))
                 (filter (\<lambda>(p, e). thruster_hp td (lower e) > 0) es))"
    by (simp add: ship_thrusters_def fold_thruster_total)
  show "ship_components c es =
     (sum_list (map (\<lambda>(p, e). component_hp c (lower e))
                  (filter (\<lambda>(p, e). component_hp c (lower e) > 0) es)),
      int (length (filter (\<lambda>(p, e). component_hp c (lower e) > 0) es)))"
    by (simp add: ship_components_def fold_component_step)
qed

lemma dead_thruster_hp: "thruster_hp dead_thrusters (lower ''thr_dead'') = 0"
  by (simp add: dead_thrusters_def thruster_hp_def lower_def lower_char_ascii)

lemma sample_component_hp:
  "component_hp [(''powr_dead'', 0), (''powr_a'', 5)] (lower ''powr_dead'') = 0"
  "component_hp [(''powr_dead'', 0), (''powr_a'', 5)] (lower ''powr_a_scitem'') = 5"
  by (simp_all add: component_hp_def lower_def lower_char_ascii)

theorem zero_health_not_counted_witness:
  "thruster_count (ship_thrusters dead_thrusters [(''hardpoint_thruster_main'', ''thr_dead'')]) = 0 \<and>
   thruster_total_hp (ship_thrusters dead_thrusters [(''hardpoint_thruster_main'', ''thr_dead'')]) = 0 \<and>
   ship_components [(''powr_dead'', 0), (''powr_a'', 5)]
     [(''hardpoint_power_plant'', ''powr_dead''), (''hardpoint_power_plant'', ''powr_a_scitem'')]
     = (5, 1)"
  using zero_health_not_counted
          [of dead_thrusters "[(''hardpoint_thruster_main'', ''thr_dead'')]"
              "[(''powr_dead'', 0), (''powr_a'', 5)]"]
        zero_health_not_counted
          [of dead_thrusters
              "[(''hardpoint_power_plant'', ''powr_dead''), (''hardpoint_power_plant'', ''powr_a_scitem'')]"
              "[(''powr_dead'', 0), (''powr_a'', 5)]"]
  by (simp add: dead_thruster_hp sample_component_hp)

text \<open>
  Claim C8 as stated fails: the thruster below resolves, by exact lookup, to a catalog
  entry with health 0, and the thruster count stays 0.
\<close>

theorem zero_health_counted_counterexample:
  "dict_get dead_thrusters (lower ''thr_dead'') = Some \<lparr>health = 0, filename = ''thr_dead''\<rparr> \<and>
   thruster_count (ship_thrusters dead_thrusters [(''hardpoint_thruster_main'', ''thr_dead'')]) = 0"
  by (simp add: dead_thrusters_def ship_thrusters_def thruster_step_def thruster_hp_def
        lower_def lower_char_ascii)

section \<open>Facts about the loadout walk\<close>

lemma descendants_trans:
  "x \<in> set (descendants y) \<Longrightarrow> y \<in> set (descendants e) \<Longrightarrow> x \<in> set (descendants e)"
proof (induction e arbitrary: x y)
  case (Element t a cs)
  from Element.prems(2) obtain c where c: "c \<in> set cs" and y: "y = c \<or> y \<in> set (descendants c)"
    by auto
  from y have "x \<in> set (descendants c)"
  proof
    assume "y = c" with Element.prems(1) show ?thesis by simp
  next
    assume "y \<in> set (descendants c)"
    from Element.IH [OF c Element.prems(1) this] show ?thesis .
  qed
  with c show ?case by auto
qed

lemma findall_trans:
  "x \<in> set (findall y t) \<Longrightarrow> y \<in> set (findall e t') \<Longrightarrow> x \<in> set (findall e t)"
  by (auto simp: findall_def intro: descendants_trans)

lemma direct_entries_findall: "direct_entries e = findall e entry_tag"
proof -
  have "x \<noteq> e" if "x \<in> set (findall e entry_tag)" for x
    using findall_smaller [OF that] by auto
  then show ?thesis by (simp add: direct_entries_def)
qed

lemma nested_entries_direct:
  assumes "x \<in> set (nested_entries e)"
  shows "x \<in> set (direct_entries e)"
proof -
  from assms obtain l m es where "l \<in> set (findall e ''loadout'')"
    "m \<in> set (findall l ''SItemPortLoadoutManualParams'')" "es \<in> set (findall m ''entries'')"
    "x \<in> set (findall es entry_tag)"
    by (auto simp: nested_entries_def)
  then show ?thesis
    unfolding direct_entries_findall by (meson findall_trans)
qed

lemma set_parse_loadout_entry:
  "set (parse_loadout_entry entry depth) =
     set (own_weapon entry) \<union> (\<Union>x \<in> set (direct_entries entry). set (own_weapon x))"
proof (induction entry depth rule: parse_loadout_entry.induct)
  case (1 entry depth)
  let ?D = "set (direct_entries entry)"
  have sub: "set (parse_loadout_entry s (depth + 1)) =
               set (own_weapon s) \<union> (\<Union>x \<in> set (direct_entries s). set (own_weapon x))"
    if "s \<in> ?D" for s
    using "1.IH"(2) [OF that] .
  have nested: "set (nested_entries entry) \<subseteq> ?D"
    using nested_entries_direct by blast
  have below: "set (direct_entries s) \<subseteq> ?D" if "s \<in> ?D" for s
    using that unfolding direct_entries_findall by (auto intro: findall_trans)
  have "set (parse_loadout_entry entry depth) =
          set (own_weapon entry)
          \<union> (\<Union>s \<in> set (nested_entries entry). set (parse_loadout_entry s (depth + 1)))
          \<union> (\<Union>s \<in> ?D. set (parse_loadout_entry s (depth + 1)))"
    by (subst parse_loadout_entry.simps) auto
  also have "\<dots> = set (own_weapon entry) \<union> (\<Union>s \<in> ?D. set (parse_loadout_entry s (depth + 1)))"
    using nested by blast
  also have "(\<Union>s \<in> ?D. set (parse_loadout_entry s (depth + 1))) = (\<Union>x \<in> ?D. set (own_weapon x))"
  proof (intro equalityI subsetI)
    fix w assume "w \<in> (\<Union>s \<in> ?D. set (parse_loadout_entry s (depth + 1)))"
    then obtain s where s: "s \<in> ?D" and "w \<in> set (parse_loadout_entry s (depth + 1))" by blast
    with sub [OF s] have "w \<in> set (own_weapon s) \<or> (\<exists>x \<in> set (direct_entries s). w \<in> set (own_weapon x))"
      by auto
    with s below [OF s] show "w \<in> (\<Union>x \<in> ?D. set (own_weapon x))" by blast
  next
    fix w assume "w \<in> (\<Union>x \<in> ?D. set (own_weapon x))"
    then obtain x where x: "x \<in> ?D" and "w \<in> set (own_weapon x)" by blast
    with sub [OF x] have "w \<in> set (parse_loadout_entry x (depth + 1))" by simp
    with x show "w \<in> (\<Union>s \<in> ?D. set (parse_loadout_entry s (depth + 1)))" by blast
  qed
  finally show ?case .
qed




lemma own_laser: "own_weapon laser = [(''hardpoint_class_2'', ''behr_lasercannon_s2'')]"
  by (simp add: own_weapon_def laser_def get_attr_def is_weapon_class_def upper_def upper_char_ascii
        lower_def lower_char_ascii startswith_def)

lemma laser_entries: "nested_entries laser = []" "direct_entries laser = []"
  by (simp_all add: nested_entries_def direct_entries_def findall_def laser_def)

lemma parse_laser:
  "parse_loadout_entry laser depth = [(''hardpoint_class_2'', ''behr_lasercannon_s2'')]"
  by (subst parse_loadout_entry.simps) (simp add: own_laser laser_entries)

lemma turret_mount_entries:
  "nested_entries turret_mount = [laser]" "direct_entries turret_mount = [laser]"
  "iter turret_mount entry_tag = [turret_mount, laser]"
  unfolding direct_entries_findall
  by (simp_all add: nested_entries_def findall_def iter_def turret_mount_def laser_def entry_tag_def)

lemma own_turret_mount: "own_weapon turret_mount = []"
  by (simp add: own_weapon_def turret_mount_def get_attr_def is_weapon_class_def upper_def
        upper_char_ascii startswith_def)

lemma parse_turret_mount:
  "parse_loadout_entry turret_mount 0 =
     [(''hardpoint_class_2'', ''behr_lasercannon_s2''), (''hardpoint_class_2'', ''behr_lasercannon_s2'')]"
  by (subst parse_loadout_entry.simps) (simp add: turret_mount_entries own_turret_mount parse_laser)


text \<open>
  Claim C6, as the code has it. The walk keeps no visited set. It returns on every
  attachment tree, each recursive call being on a proper descendant of a finite
  element tree, and its flat result lists the weapon-bearing entries of the subtree and
  nothing else: the entry itself and the entries below it. How often an entry is
  listed is not bounded by one.
\<close>

theorem walk_lists_weapon_entries:
  "set (parse_loadout_entry entry depth) =
     set (own_weapon entry) \<union> (\<Union>x \<in> set (findall entry entry_tag). set (own_weapon x))"
  using set_parse_loadout_entry [of entry depth] by (simp add: direct_entries_findall)

theorem walk_lists_weapon_entries_witness:
  "set (parse_loadout_entry turret_mount 0) = {(''hardpoint_class_2'', ''behr_lasercannon_s2'')}"
proof -
  have "findall turret_mount entry_tag = [laser]"
    using turret_mount_entries(2) by (simp add: direct_entries_findall)
  with walk_lists_weapon_entries [of turret_mount 0] show ?thesis
    by (simp add: own_turret_mount own_laser)
qed

text \<open>
  Claim C6 as stated fails: the turret mount below holds one weapon entry, and the flat
  result lists that entry twice, once from the loop over the nested loadout and once
  from the loop over all entries below the mount.
\<close>

theorem walk_visits_twice_counterexample:
  "iter turret_mount entry_tag = [turret_mount, laser] \<and>
   own_weapon turret_mount = [] \<and>
   own_weapon laser = [(''hardpoint_class_2'', ''behr_lasercannon_s2'')] \<and>
   parse_loadout_entry turret_mount 0 =
     [(''hardpoint_class_2'', ''behr_lasercannon_s2''), (''hardpoint_class_2'', ''behr_lasercannon_s2'')]"
  by (simp add: turret_mount_entries own_turret_mount own_laser parse_turret_mount)




section \<open>Facts about the missile racks\<close>

lemma dict_set_entries:
  "(k', v') \<in> set (dict_set d k v) \<Longrightarrow> (k', v') \<in> set d \<or> (k' = k \<and> v' = v)"
  by (induction d) (auto split: if_splits)

lemma missile_step_entries:
  assumes "(p, ms) \<in> set (missile_step e d)"
  shows "(p, ms) \<in> set d \<or> ms = rack_missiles 2 e"
proof (cases "startswith (upper (get_attr e ''entityClassName'')) ''MRCK_''")
  case True
  with assms show ?thesis
    by (auto simp: missile_step_def Let_def split: if_splits dest: dict_set_entries)
next
  case False
  with assms show ?thesis by (simp add: missile_step_def Let_def)
qed

lemma fold_missile_step_entries:
  "(p, ms) \<in> set (fold missile_step es d) \<Longrightarrow>
     (p, ms) \<in> set d \<or> (\<exists>e \<in> set es. ms = rack_missiles 2 e)"
proof (induction es arbitrary: d)
  case Nil
  then show ?case by simp
next
  case (Cons e es)
  from Cons.prems have "(p, ms) \<in> set (fold missile_step es (missile_step e d))" by simp
  from Cons.IH [OF this] missile_step_entries [of p ms e d] show ?case by auto
qed

lemma rack_missiles_sizes:
  assumes "(sz, name) \<in> set (rack_missiles dflt e)"
  shows "\<exists>sub_entity. startswith (upper sub_entity) ''MISL_'' \<and> name = lower sub_entity \<and>
           sz = (case search_size sub_entity of Some ds \<Rightarrow> decimal ds | None \<Rightarrow> dflt)"
  using assms by (auto simp: rack_missiles_def Let_def)

text \<open>The outer loop is the loop without its torpedo branch.\<close>

lemma torpedo_branch_dead:
  "missile_step entry missile_loadouts =
     (if startswith (upper (get_attr entry ''entityClassName'')) ''MRCK_'' \<and>
         rack_missiles 2 entry \<noteq> []
      then dict_set missile_loadouts (lower (get_attr entry ''itemPortName'')) (rack_missiles 2 entry)
      else missile_loadouts)"
  by (simp add: missile_step_def Let_def)

text \<open>
  Claim C10. The torpedo branch repeats the test of the branch before it, so it is
  never taken: every missile list of the result is built by the general branch. Each
  recorded pair comes from a nested \<open>MISL_\<close> entity, with the size its name shows and
  with size 2 when the name shows none, on every rack, whatever its port name, the
  torpedo racks included; the default 5 is never used.
\<close>

theorem torpedo_default_never_applied:
  assumes "(port, missiles) \<in> set (extract_missiles_from_xml ship_xml)"
    and "(sz, name) \<in> set missiles"
  shows "\<exists>sub_entity. startswith (upper sub_entity) ''MISL_'' \<and> name = lower sub_entity \<and>
           sz = (case search_size sub_entity of Some ds \<Rightarrow> decimal ds | None \<Rightarrow> 2)"
proof (cases ship_xml)
  case None
  with assms(1) show ?thesis by (simp add: extract_missiles_from_xml_def)
next
  case (Some r)
  with assms(1) have "(port, missiles) \<in> set (fold missile_step (iter r entry_tag) [])"
    by (simp add: extract_missiles_from_xml_def)
  from fold_missile_step_entries [OF this] obtain e where "missiles = rack_missiles 2 e"
    by auto
  with assms(2) rack_missiles_sizes show ?thesis by blast
qed

lemma torpedo_rack_iter:
  "iter torpedo_rack entry_tag =
     [torpedo_rack,
      Element entry_tag
        [(''itemPortName'', ''missile_01_attach''), (''entityClassName'', ''MISL_TORP_Argos'')] []]"
  by (simp add: iter_def torpedo_rack_def)

lemma torpedo_rack_missiles: "rack_missiles 2 torpedo_rack = [(2, ''misl_torp_argos'')]"
  unfolding rack_missiles_def torpedo_rack_iter
  by (simp add: torpedo_rack_def get_attr_def startswith_def upper_def upper_char_ascii
        match_here_def lower_def lower_char_ascii)


lemma torpedo_rack_loadouts:
  "extract_missiles_from_xml (Some torpedo_rack) =
     [(''hardpoint_torpedo_rack'', [(2, ''misl_torp_argos'')])]"
proof -
  have 1: "missile_step torpedo_rack [] = [(''hardpoint_torpedo_rack'', [(2, ''misl_torp_argos'')])]"
    unfolding missile_step_def torpedo_rack_missiles
    by (simp add: torpedo_rack_def get_attr_def startswith_def upper_def upper_char_ascii
          lower_def lower_char_ascii)
  have 2: "missile_step
             (Element entry_tag
                [(''itemPortName'', ''missile_01_attach''), (''entityClassName'', ''MISL_TORP_Argos'')] [])
             d = d" for d
    by (simp add: missile_step_def get_attr_def startswith_def upper_def upper_char_ascii
          lower_def lower_char_ascii)
  show ?thesis
    by (simp add: extract_missiles_from_xml_def torpedo_rack_iter 1 2)
qed

theorem torpedo_default_never_applied_witness:
  "extract_missiles_from_xml (Some torpedo_rack) =
     [(''hardpoint_torpedo_rack'', [(2, ''misl_torp_argos'')])] \<and>
   contains ''torpedo'' ''hardpoint_torpedo_rack'' \<and>
   (\<exists>sub_entity. startswith (upper sub_entity) ''MISL_'' \<and> ''misl_torp_argos'' = lower sub_entity \<and>
      (2::int) = (case search_size sub_entity of Some ds \<Rightarrow> decimal ds | None \<Rightarrow> 2))"
proof -
  have 1: "(''hardpoint_torpedo_rack'', [(2, ''misl_torp_argos'')])
             \<in> set (extract_missiles_from_xml (Some torpedo_rack))"
    by (simp add: torpedo_rack_loadouts)
  have 2: "(2, ''misl_torp_argos'') \<in> set [(2::int, ''misl_torp_argos'')]" by simp
  have 3: "contains ''torpedo'' ''hardpoint_torpedo_rack''" by simp
  from torpedo_default_never_applied [OF 1 2] torpedo_rack_loadouts 3 show ?thesis by blast
qed

section \<open>Facts about the hardpoint mappings\<close>

lemma store_matches_items:
  "store_matches ms =
     fold (\<lambda>(k, v) d. dict_set d k v) (map (\<lambda>(p, e). (lower p, lower e)) ms) []"
proof -
  have "fold (\<lambda>(port_name, entity_class) mappings.
               dict_set mappings (lower port_name) (lower entity_class)) ms d =
        fold (\<lambda>(k, v) d. dict_set d k v) (map (\<lambda>(p, e). (lower p, lower e)) ms) d" for d
    by (induction ms arbitrary: d) (auto split: prod.splits)
  then show ?thesis by (simp add: store_matches_def)
qed

lemma keys_store_matches:
  "keys (store_matches ms) = first_seen (map (\<lambda>(p, e). lower p) ms)"
proof -
  have "map fst (map (\<lambda>(p, e). (lower p, lower e)) ms) = map (\<lambda>(p, e). lower p) ms"
    by (induction ms) (auto split: prod.splits)
  then show ?thesis by (simp only: store_matches_items fold_dict_set_keys)
qed

lemma distinct_store_matches: "distinct (keys (store_matches ms))"
  by (simp add: keys_store_matches first_seen_def)

lemma fold_store_other:
  "\<forall>(p, e) \<in> set ms. lower p \<noteq> k \<Longrightarrow>
   dict_get (fold (\<lambda>(port_name, entity_class) mappings.
             dict_set mappings (lower port_name) (lower entity_class)) ms d) k = dict_get d k"
  by (induction ms arbitrary: d) (auto simp: dict_get_set)

lemma store_matches_last:
  assumes "\<forall>(p', e') \<in> set later. lower p' \<noteq> lower p"
  shows "dict_get (store_matches (earlier @ (p, e) # later)) (lower p) = Some (lower e)"
  using assms by (simp add: store_matches_def fold_store_other dict_get_set)

lemma filter_key_distinct:
  "distinct (keys d) \<Longrightarrow> dict_get d k = Some v \<Longrightarrow> filter (\<lambda>(k', v'). k' = k) d = [(k, v)]"
proof (induction d)
  case Nil
  then show ?case by simp
next
  case (Cons kv d)
  obtain k0 v0 where kv: "kv = (k0, v0)" by (cases kv)
  show ?case
  proof (cases "k0 = k")
    case True
    with Cons.prems kv have "v0 = v" and "k \<notin> fst ` set d" by (auto simp: keys_def)
    then have "filter (\<lambda>(k', v'). k' = k) d = []" by (force simp: filter_empty_conv)
    with True kv \<open>v0 = v\<close> show ?thesis by simp
  next
    case False
    with Cons kv show ?thesis by (simp add: keys_def)
  qed
qed

lemma dict_set_twice: "dict_set (dict_set d k a) k b = dict_set d k b"
  by (induction d) auto

lemma dict_set_commute:
  "k \<noteq> k' \<Longrightarrow> k \<in> set (keys d) \<Longrightarrow>
   dict_set (dict_set d k a) k' b = dict_set (dict_set d k' b) k a"
proof (induction d)
  case Nil
  then show ?case by (simp add: keys_def)
next
  case (Cons kv d)
  obtain k0 v0 where kv: "kv = (k0, v0)" by (cases kv)
  show ?case
  proof (cases "k0 = k \<or> k0 = k'")
    case True
    with Cons.prems(1) kv show ?thesis by auto
  next
    case False
    with Cons.prems kv have "k \<in> set (keys d)" by (auto simp: keys_def)
    from Cons.IH [OF Cons.prems(1) this] False kv show ?thesis by simp
  qed
qed

lemma fold_store_shift:
  assumes "k \<in> set (keys d)" "\<forall>(p, e) \<in> set ms. lower p \<noteq> k"
  shows "fold (\<lambda>(port_name, entity_class) mappings.
             dict_set mappings (lower port_name) (lower entity_class)) ms (dict_set d k w) =
         dict_set (fold (\<lambda>(port_name, entity_class) mappings.
             dict_set mappings (lower port_name) (lower entity_class)) ms d) k w"
  using assms
proof (induction ms arbitrary: d)
  case Nil
  show ?case by simp
next
  case (Cons pe ms)
  obtain p e where pe: "pe = (p, e)" by (cases pe)
  from Cons.prems pe have ne: "k \<noteq> lower p" by auto
  have mem: "k \<in> set (keys (dict_set d (lower p) (lower e)))"
    using Cons.prems(1) by (simp add: keys_dict_set)
  have "dict_set (dict_set d k w) (lower p) (lower e) = dict_set (dict_set d (lower p) (lower e)) k w"
    using dict_set_commute [OF ne Cons.prems(1)] .
  with Cons.IH [OF mem] Cons.prems(2) pe show ?case by simp
qed

lemma fold_store_absorb:
  assumes "k \<in> set (keys d)" "\<exists>(p, e) \<in> set ms. lower p = k"
  shows "fold (\<lambda>(port_name, entity_class) mappings.
             dict_set mappings (lower port_name) (lower entity_class)) ms (dict_set d k w) =
         fold (\<lambda>(port_name, entity_class) mappings.
             dict_set mappings (lower port_name) (lower entity_class)) ms d"
proof -
  from assms(2) obtain p' e' where "(p', e') \<in> set ms" "lower p' = k" by auto
  then have "\<exists>x \<in> set ms. lower (fst x) = k" by (intro bexI [of _ "(p', e')"]) simp_all
  from split_list_first_prop [OF this]
  obtain ms1 x ms2 where ms: "ms = ms1 @ x # ms2" and x: "lower (fst x) = k"
    and ms1: "\<forall>y \<in> set ms1. lower (fst y) \<noteq> k" by blast
  obtain p e where pe: "x = (p, e)" by (cases x)
  from ms1 have "\<forall>(p, e) \<in> set ms1. lower p \<noteq> k" by auto
  from fold_store_shift [OF assms(1) this, of w] x pe ms show ?thesis
    by (simp add: dict_set_twice)
qed

lemma store_matches_earlier_entity:
  assumes "\<exists>(p, e) \<in> set rest. lower p = lower p0"
  shows "store_matches (pre @ (p0, e1) # rest) = store_matches (pre @ (p0, e0) # rest)"
proof -
  let ?step = "\<lambda>(port_name, entity_class) mappings.
             dict_set mappings (lower port_name) (lower entity_class)"
  let ?D = "fold ?step pre []"
  let ?A = "dict_set ?D (lower p0) (lower e0)"
  have mem: "lower p0 \<in> set (keys ?A)" by (simp add: keys_dict_set)
  have "dict_set ?D (lower p0) (lower e1) = dict_set ?A (lower p0) (lower e1)"
    by (simp add: dict_set_twice)
  then have "fold ?step rest (dict_set ?D (lower p0) (lower e1)) = fold ?step rest ?A"
    using fold_store_absorb [OF mem assms, of "lower e1"] by simp
  then show ?thesis by (simp add: store_matches_def)
qed

text \<open>
  Claim C9, as the code has it. The mappings hold the pairs the pattern matches, an
  \<open>itemPortName\<close> attribute followed before the next \<open>>\<close> by a non-empty
  \<open>entityClassName\<close> attribute, keyed by the lower-cased port name. Of the matched pairs
  with one port name after \<open>lower\<close>, the last one's entity is the one kept: the map has one
  entry for the port, with that entity; in every category list the entries for the port
  are that one pair, in the category of that entity, and nothing else; the keys stand in
  the order the ports are first matched, each port counting once in the hardpoint total;
  and whatever the entity of an earlier pair for the port, the ship's armor, counts and
  health totals are the same.
\<close>

theorem duplicate_ports_keep_last:
  assumes "hardpoint_matches content = earlier @ (p, e) # later"
    and "\<forall>(p', e') \<in> set later. lower p' \<noteq> lower p"
  shows "dict_get (extract_hardpoint_mappings content) (lower p) = Some (lower e) \<and>
         distinct (keys (extract_hardpoint_mappings content)) \<and>
         (\<forall>c. filter (\<lambda>(k, v). k = lower p)
                (categorize_hardpoints (extract_hardpoint_mappings content) c) =
              (if c = classify (lower p) (lower e) then [(lower p, lower e)] else [])) \<and>
         keys (extract_hardpoint_mappings content) =
           first_seen (map (\<lambda>(p', e'). lower p') (hardpoint_matches content)) \<and>
         total_hardpoints (ship_parts_of cat ship_file (extract_hardpoint_mappings content)) =
           int (card ((\<lambda>(p', e'). lower p') ` set (hardpoint_matches content))) \<and>
         (\<forall>pre p0 e0 post e1.
            earlier = pre @ (p0, e0) # post \<and> lower p0 = lower p \<longrightarrow>
            ship_parts_of cat ship_file (store_matches (pre @ (p0, e1) # post @ (p, e) # later)) =
            ship_parts_of cat ship_file (extract_hardpoint_mappings content))"
proof -
  let ?m = "extract_hardpoint_mappings content"
  have m: "?m = store_matches (earlier @ (p, e) # later)"
    by (simp add: extract_hardpoint_mappings_def assms(1))
  have 1: "dict_get ?m (lower p) = Some (lower e)"
    unfolding m using assms(2) by (rule store_matches_last)
  have 2: "distinct (keys ?m)"
    unfolding m by (rule distinct_store_matches)
  have 3: "filter (\<lambda>(k, v). k = lower p) (categorize_hardpoints ?m c) =
              (if c = classify (lower p) (lower e) then [(lower p, lower e)] else [])" for c
  proof -
    have "filter (\<lambda>(k, v). k = lower p) (categorize_hardpoints ?m c) =
          filter (\<lambda>(k, v). classify k v = c) (filter (\<lambda>(k, v). k = lower p) ?m)"
      unfolding categorize_filter filter_filter by (rule filter_cong) auto
    also have "filter (\<lambda>(k, v). k = lower p) ?m = [(lower p, lower e)]"
      using 2 1 by (rule filter_key_distinct)
    finally show ?thesis by auto
  qed
  have 4: "keys ?m = first_seen (map (\<lambda>(p', e'). lower p') (hardpoint_matches content))"
    by (simp add: extract_hardpoint_mappings_def keys_store_matches)
  have "length ?m = length (keys ?m)" by (simp add: keys_def)
  also have "\<dots> = card (set (keys ?m))" using 2 by (simp add: distinct_card)
  also have "set (keys ?m) = (\<lambda>(p', e'). lower p') ` set (hardpoint_matches content)"
    unfolding 4 by (simp add: set_first_seen)
  finally have 5: "total_hardpoints (ship_parts_of cat ship_file ?m) =
           int (card ((\<lambda>(p', e'). lower p') ` set (hardpoint_matches content)))"
    by (simp add: ship_parts_of_def Let_def)
  have 6: "ship_parts_of cat ship_file (store_matches (pre @ (p0, e1) # post @ (p, e) # later)) =
            ship_parts_of cat ship_file ?m"
    if "earlier = pre @ (p0, e0) # post" "lower p0 = lower p" for pre p0 e0 post e1
  proof -
    have "\<exists>(p', e') \<in> set (post @ (p, e) # later). lower p' = lower p0"
      using that(2) by auto
    from store_matches_earlier_entity [OF this, of pre e1 e0] that(1) m
    show ?thesis by simp
  qed
  from 1 2 3 4 5 6 show ?thesis by blast
qed

lemma thruster_twice_matches:
  "hardpoint_matches thruster_twice =
     [(''hardpoint_thruster_main'', ''THR_Main_S3''),
      (''hardpoint_cooler'', ''COOL_S1''),
      (''Hardpoint_Thruster_Main'', ''THR_Main_S1'')]"
  by (simp add: thruster_twice_def entry_text_def attr_def dquote_def match_at_def
       quoted_value_def entity_here_def lower_char_ascii)

lemma thruster_twice_mappings:
  "extract_hardpoint_mappings thruster_twice =
     [(''hardpoint_thruster_main'', ''thr_main_s1''), (''hardpoint_cooler'', ''cool_s1'')]"
  by (simp add: extract_hardpoint_mappings_def thruster_twice_matches store_matches_def
        lower_def lower_char_ascii)

lemma thruster_twice_parts:
  "thruster_part (ship_parts_of sample_catalogs ''AEGS_Gladius''
      [(''hardpoint_thruster_main'', ''thr_main_s1''), (''hardpoint_cooler'', ''cool_s1'')]) =
     \<lparr>thruster_count = 1, thruster_main_hp = 120, thruster_retro_hp = 0,
      thruster_mav_hp = 0, thruster_vtol_hp = 0\<rparr>"
  by (simp add: ship_parts_of_def Let_def categorize_filter classify_def sample_catalogs_def
        ship_thrusters_def thruster_step_def thruster_hp_def lower_def lower_char_ascii)

lemma thruster_twice_lower:
  "lower ''Hardpoint_Thruster_Main'' = ''hardpoint_thruster_main''"
  "lower ''hardpoint_thruster_main'' = ''hardpoint_thruster_main''"
  "lower ''THR_Main_S1'' = ''thr_main_s1''"
  by (simp_all add: lower_def lower_char_ascii)

theorem duplicate_ports_keep_last_witness:
  "dict_get (extract_hardpoint_mappings thruster_twice) ''hardpoint_thruster_main''
     = Some ''thr_main_s1'' \<and>
   keys (extract_hardpoint_mappings thruster_twice)
     = [''hardpoint_thruster_main'', ''hardpoint_cooler''] \<and>
   categorize_hardpoints (extract_hardpoint_mappings thruster_twice) Thrusters
     = [(''hardpoint_thruster_main'', ''thr_main_s1'')] \<and>
   total_hardpoints
     (ship_parts_of sample_catalogs ''AEGS_Gladius'' (extract_hardpoint_mappings thruster_twice))
     = 2 \<and>
   thruster_part
     (ship_parts_of sample_catalogs ''AEGS_Gladius'' (extract_hardpoint_mappings thruster_twice))
     = \<lparr>thruster_count = 1, thruster_main_hp = 120, thruster_retro_hp = 0,
        thruster_mav_hp = 0, thruster_vtol_hp = 0\<rparr> \<and>
   ship_parts_of sample_catalogs ''AEGS_Gladius''
     (store_matches
        [(''hardpoint_thruster_main'', ''BEHR_LaserCannon_S2''),
         (''hardpoint_cooler'', ''COOL_S1''),
         (''Hardpoint_Thruster_Main'', ''THR_Main_S1'')])
     = ship_parts_of sample_catalogs ''AEGS_Gladius'' (extract_hardpoint_mappings thruster_twice)"
proof -
  have h1: "hardpoint_matches thruster_twice =
     [(''hardpoint_thruster_main'', ''THR_Main_S3''), (''hardpoint_cooler'', ''COOL_S1'')] @
     (''Hardpoint_Thruster_Main'', ''THR_Main_S1'') # []"
    by (simp add: thruster_twice_matches)
  have h2: "\<forall>(p', e') \<in> set []. lower p' \<noteq> lower ''Hardpoint_Thruster_Main''"
    by simp
  note T = duplicate_ports_keep_last [OF h1 h2, of sample_catalogs "''AEGS_Gladius''"]
  from T have a: "dict_get (extract_hardpoint_mappings thruster_twice) ''hardpoint_thruster_main''
     = Some ''thr_main_s1''"
    by (simp add: thruster_twice_lower)
  from T have "\<forall>pre p0 e0 post e1.
            [(''hardpoint_thruster_main'', ''THR_Main_S3''), (''hardpoint_cooler'', ''COOL_S1'')]
              = pre @ (p0, e0) # post \<and> lower p0 = lower ''Hardpoint_Thruster_Main'' \<longrightarrow>
            ship_parts_of sample_catalogs ''AEGS_Gladius''
              (store_matches (pre @ (p0, e1) # post @ (''Hardpoint_Thruster_Main'', ''THR_Main_S1'') # [])) =
            ship_parts_of sample_catalogs ''AEGS_Gladius'' (extract_hardpoint_mappings thruster_twice)"
    by (elim conjE)
  from this [rule_format, of "[]" "''hardpoint_thruster_main''" "''THR_Main_S3''"
               "[(''hardpoint_cooler'', ''COOL_S1'')]" "''BEHR_LaserCannon_S2''"]
  have f: "ship_parts_of sample_catalogs ''AEGS_Gladius''
     (store_matches
        [(''hardpoint_thruster_main'', ''BEHR_LaserCannon_S2''),
         (''hardpoint_cooler'', ''COOL_S1''),
         (''Hardpoint_Thruster_Main'', ''THR_Main_S1'')])
     = ship_parts_of sample_catalogs ''AEGS_Gladius'' (extract_hardpoint_mappings thruster_twice)"
    by (simp add: thruster_twice_lower)
  have k: "keys (extract_hardpoint_mappings thruster_twice)
     = [''hardpoint_thruster_main'', ''hardpoint_cooler'']"
    by (simp add: thruster_twice_mappings keys_def)
  have c: "categorize_hardpoints (extract_hardpoint_mappings thruster_twice) Thrusters
     = [(''hardpoint_thruster_main'', ''thr_main_s1'')]"
    by (simp add: thruster_twice_mappings categorize_filter classify_def)
  have t: "total_hardpoints
     (ship_parts_of sample_catalogs ''AEGS_Gladius'' (extract_hardpoint_mappings thruster_twice)) = 2"
    by (simp add: thruster_twice_mappings ship_parts_of_def Let_def)
  have tp: "thruster_part
     (ship_parts_of sample_catalogs ''AEGS_Gladius'' (extract_hardpoint_mappings thruster_twice))
     = \<lparr>thruster_count = 1, thruster_main_hp = 120, thruster_retro_hp = 0,
        thruster_mav_hp = 0, thruster_vtol_hp = 0\<rparr>"
    by (simp only: thruster_twice_mappings thruster_twice_parts)
  from a k c t tp f show ?thesis by (intro conjI)
qed

lemma cooler_matches:
  "hardpoint_matches cooler_by_reference = [(''hardpoint_cooler'', ''COOL_S1'')]"
  "hardpoint_matches cooler_reversed = [(''hardpoint_cooler'', ''COOL_S1'')]"
  by (simp_all add: cooler_by_reference_def cooler_reversed_def entry_text_def attr_def
       dquote_def match_at_def quoted_value_def entity_here_def lower_char_ascii)

lemma cooler_first_parts:
  "cooler_part (ship_parts_of sample_catalogs ''AEGS_Gladius'' [(''hardpoint_cooler'', ''cool_s1'')])
     = (300, 1)"
  by (simp add: ship_parts_of_def Let_def categorize_filter classify_def sample_catalogs_def
        ship_components_def component_step_def component_hp_def lower_def lower_char_ascii)

text \<open>
  Claim C9 as stated fails. Each of the two files below has two attachment entries
  for the port \<open>hardpoint_cooler\<close>. The pattern does not match the last one, whose
  \<open>entityClassName\<close> is empty in the first file and written before \<open>itemPortName\<close> in the
  second: the entity kept is that of the earlier entry, and it is counted, one cooler
  with its 300 health.
\<close>

theorem last_entry_unmatched_counterexample:
  "hardpoint_matches cooler_by_reference = [(''hardpoint_cooler'', ''COOL_S1'')] \<and>
   extract_hardpoint_mappings cooler_by_reference = [(''hardpoint_cooler'', ''cool_s1'')] \<and>
   cooler_part
     (ship_parts_of sample_catalogs ''AEGS_Gladius'' (extract_hardpoint_mappings cooler_by_reference))
     = (300, 1) \<and>
   hardpoint_matches cooler_reversed = [(''hardpoint_cooler'', ''COOL_S1'')] \<and>
   extract_hardpoint_mappings cooler_reversed = [(''hardpoint_cooler'', ''cool_s1'')] \<and>
   cooler_part
     (ship_parts_of sample_catalogs ''AEGS_Gladius'' (extract_hardpoint_mappings cooler_reversed))
     = (300, 1)"
proof -
  have m: "store_matches [(''hardpoint_cooler'', ''COOL_S1'')] = [(''hardpoint_cooler'', ''cool_s1'')]"
    by (simp add: store_matches_def lower_def lower_char_ascii)
  show ?thesis
    by (simp add: extract_hardpoint_mappings_def cooler_matches m cooler_first_parts)
qed

end
